theory Spec2Isabelle
  imports Main "HOL-Library.Word" "HOL-Library.Sublist" "HOL-Library.AList"
    "HOL-Library.Signed_Division"
begin

unbundle bit_operations_syntax

section \<open>Credential pool: data model\<close>

text \<open>
  The token pool (package flow, type TokenPool) and the generation handler
  (\<^verbatim>\<open>flow/handler.go\<close>, type GenerationHandler) are embedded as pure functions with
  explicit state. Locks are left out: each function is one uninterrupted run. Calls of
  \<^verbatim>\<open>log.Printf\<close> are left out as well.

  Go strings are byte sequences: \<open>string\<close> (a list of 8-bit characters), \<open>length\<close> is
  Go's \<open>len\<close>. Go's \<open>int\<close> is modelled by \<open>int\<close>; where a product can leave the 64-bit
  range the wrap-around is written out (\<open>wrap64\<close>). A \<open>time.Time\<close> is the number of
  nanoseconds since Go's zero time instant, so the zero value of the type is \<open>0\<close>.
  An \<open>error\<close> returned by the transport client or the operating system is its message.
\<close>

type_synonym error = string
type_synonym Time = int

definition Minute :: int where
  "Minute = 60 * 1000000000"

text \<open>
  The struct FlowToken is declared with the transport client, whose source is not
  part of this development; the record has the fields the pool and the handler read and
  write, with Go's zero values for a token built as \<^verbatim>\<open>&FlowToken{ID: tokenID, ST: st}\<close>.
\<close>

record FlowToken =
  ID :: string
  ST :: string
  AT :: string
  ATExpires :: Time
  Email :: string
  Credits :: int
  UserPaygateTier :: string
  ProjectID :: string
  Disabled :: bool
  ErrorCount :: int
  LastUsed :: Time

definition newFlowToken :: "string \<Rightarrow> string \<Rightarrow> FlowToken" where
  "newFlowToken tokenID st =
     \<lparr>ID = tokenID, ST = st, AT = [], ATExpires = 0, Email = [], Credits = 0,
      UserPaygateTier = [], ProjectID = [], Disabled = False, ErrorCount = 0, LastUsed = 0\<rparr>"

text \<open>
  TokenPool: \<open>tokens\<close> is Go's \<^verbatim>\<open>map[string]*FlowToken\<close> as an association list (the
  order of the list is the order in which \<^verbatim>\<open>range\<close> visits the map, which Go leaves
  open); \<open>fileIndex\<close> is \<^verbatim>\<open>map[string]string\<close>, file name to token ID. \<open>client\<close> is
  \<open>None\<close> for a nil client and otherwise the IDs handed to \<^verbatim>\<open>client.AddToken\<close> so far.
\<close>

record TokenPool =
  tokens :: "(string \<times> FlowToken) list"
  dataDir :: string
  client :: "string list option"
  fileIndex :: "string \<rightharpoonup> string"

definition NewTokenPool :: "string \<Rightarrow> string list option \<Rightarrow> TokenPool" where
  "NewTokenPool dir cl = \<lparr>tokens = [], dataDir = dir, client = cl, fileIndex = Map.empty\<rparr>"

definition AddToken :: "string list option \<Rightarrow> FlowToken \<Rightarrow> string list option" where
  "AddToken cl token = (case cl of None \<Rightarrow> None | Some added \<Rightarrow> Some (added @ [ID token]))"

section \<open>Count, ReadyCount and Stats\<close>

definition Count :: "TokenPool \<Rightarrow> int" where
  "Count p = int (length (tokens p))"

fun ReadyCount_loop :: "FlowToken list \<Rightarrow> int \<Rightarrow> int" where
  "ReadyCount_loop [] count = count"
| "ReadyCount_loop (t # ts) count =
     ReadyCount_loop ts (if \<not> Disabled t \<and> ErrorCount t < 3 then count + 1 else count)"

definition ReadyCount :: "TokenPool \<Rightarrow> int" where
  "ReadyCount p = ReadyCount_loop (map snd (tokens p)) 0"

text \<open>
  One entry of the \<^verbatim>\<open>tokens\<close> list of Stats. \<^verbatim>\<open>t.ID[:16]\<close> panics when the ID has fewer
  than 16 bytes: \<open>token_info\<close> is \<open>None\<close> then. \<^verbatim>\<open>LastUsed.Format\<close> is not modelled, the
  entry carries the time itself.
\<close>

record TokenInfo =
  info_id :: string
  info_email :: string
  info_credits :: int
  info_disabled :: bool
  info_error_count :: int
  info_last_used :: Time

definition token_info :: "FlowToken \<Rightarrow> TokenInfo option" where
  "token_info t =
     (if length (ID t) < 16 then None
      else Some \<lparr>info_id = take 16 (ID t) @ ''...'', info_email = Email t,
                 info_credits = Credits t, info_disabled = Disabled t,
                 info_error_count = ErrorCount t, info_last_used = LastUsed t\<rparr>)"

record StatsSnapshot =
  total :: int
  ready :: int
  disabled :: int
  errored :: int
  tokenInfos :: "TokenInfo list"

text \<open>The loop of Stats over the map, with its three counters and the list built so far.\<close>

fun Stats_loop :: "FlowToken list \<Rightarrow> int \<Rightarrow> int \<Rightarrow> int \<Rightarrow> TokenInfo list
    \<Rightarrow> (int \<times> int \<times> int \<times> TokenInfo list) option" where
  "Stats_loop [] rdy dis err infos = Some (rdy, dis, err, infos)"
| "Stats_loop (t # ts) rdy dis err infos =
     (case token_info t of
        None \<Rightarrow> None
      | Some info \<Rightarrow>
          (if Disabled t then Stats_loop ts rdy (dis + 1) err (infos @ [info])
           else if ErrorCount t \<ge> 3 then Stats_loop ts rdy dis (err + 1) (infos @ [info])
           else Stats_loop ts (rdy + 1) dis err (infos @ [info])))"

definition Stats :: "TokenPool \<Rightarrow> StatsSnapshot option" where
  "Stats p =
     (case Stats_loop (map snd (tokens p)) 0 0 0 [] of
        None \<Rightarrow> None
      | Some (rdy, dis, err, infos) \<Rightarrow>
          Some \<lparr>total = int (length (tokens p)), ready = rdy, disabled = dis,
                errored = err, tokenInfos = infos\<rparr>)"

section \<open>Extracting the session token and deriving the identity\<close>

text \<open>
  Go's regexp class \<^verbatim>\<open>\s\<close> is the ASCII set tab, line feed, form feed, carriage return and
  space. \<^verbatim>\<open>strings.TrimSpace\<close> removes the white space of Unicode: the six ASCII characters
  of \<open>asciiSpace\<close> and the code points U+0085, U+00A0, U+1680, U+2000 to U+200A, U+2028,
  U+2029, U+202F, U+205F and U+3000, which \<open>space_runes\<close> lists in UTF-8.
\<close>

definition perl_space :: "char \<Rightarrow> bool" where
  "perl_space c \<longleftrightarrow> c = CHR 0x09 \<or> c = CHR 0x0A \<or> c = CHR 0x0C \<or> c = CHR 0x0D \<or> c = CHR 0x20"

definition asciiSpace :: "char \<Rightarrow> bool" where
  "asciiSpace c \<longleftrightarrow>
     c = CHR 0x09 \<or> c = CHR 0x0A \<or> c = CHR 0x0B \<or> c = CHR 0x0C \<or> c = CHR 0x0D \<or> c = CHR 0x20"

definition space_runes :: "string list" where
  "space_runes =
     [[CHR 0xC2, CHR 0x85], [CHR 0xC2, CHR 0xA0], [CHR 0xE1, CHR 0x9A, CHR 0x80],
      [CHR 0xE2, CHR 0x80, CHR 0x80], [CHR 0xE2, CHR 0x80, CHR 0x81],
      [CHR 0xE2, CHR 0x80, CHR 0x82], [CHR 0xE2, CHR 0x80, CHR 0x83],
      [CHR 0xE2, CHR 0x80, CHR 0x84], [CHR 0xE2, CHR 0x80, CHR 0x85],
      [CHR 0xE2, CHR 0x80, CHR 0x86], [CHR 0xE2, CHR 0x80, CHR 0x87],
      [CHR 0xE2, CHR 0x80, CHR 0x88], [CHR 0xE2, CHR 0x80, CHR 0x89],
      [CHR 0xE2, CHR 0x80, CHR 0x8A], [CHR 0xE2, CHR 0x80, CHR 0xA8],
      [CHR 0xE2, CHR 0x80, CHR 0xA9], [CHR 0xE2, CHR 0x80, CHR 0xAF],
      [CHR 0xE2, CHR 0x81, CHR 0x9F], [CHR 0xE3, CHR 0x80, CHR 0x80]]"

text \<open>The width in bytes of the white-space character a string starts (ends) with, 0 if none.\<close>

definition leading_space :: "string \<Rightarrow> nat" where
  "leading_space s =
     (case s of
        [] \<Rightarrow> 0
      | c # _ \<Rightarrow>
          if asciiSpace c then 1
          else (case find (\<lambda>w. prefix w s) space_runes of Some w \<Rightarrow> length w | None \<Rightarrow> 0))"

definition trailing_space :: "string \<Rightarrow> nat" where
  "trailing_space s =
     (case rev s of
        [] \<Rightarrow> 0
      | c # _ \<Rightarrow>
          if asciiSpace c then 1
          else (case find (\<lambda>w. suffix w s) space_runes of Some w \<Rightarrow> length w | None \<Rightarrow> 0))"

function TrimLeftSpace :: "string \<Rightarrow> string" where
  "TrimLeftSpace s =
     (if leading_space s = 0 then s else TrimLeftSpace (drop (leading_space s) s))"
  by pat_completeness auto
termination
  by (relation "measure length") (auto simp: leading_space_def split: list.splits)

declare TrimLeftSpace.simps [simp del]

function TrimRightSpace :: "string \<Rightarrow> string" where
  "TrimRightSpace s =
     (if trailing_space s = 0 then s else TrimRightSpace (take (length s - trailing_space s) s))"
  by pat_completeness auto
termination
  by (relation "measure length") (auto simp: trailing_space_def split: list.splits)

declare TrimRightSpace.simps [simp del]

definition TrimSpace :: "string \<Rightarrow> string" where
  "TrimSpace s = TrimRightSpace (TrimLeftSpace s)"

text \<open>
  Both patterns of extractSessionToken are the literal \<^verbatim>\<open>__Secure-next-auth.session-token=\<close>
  followed by one group, a longest non-empty run of one character class. \<open>match_here\<close> is a
  match that starts at the first byte, \<open>FindStringSubmatch\<close> the group of the leftmost
  match (\<open>None\<close> is Go's nil result).
\<close>

definition session_token_key :: string where
  "session_token_key = ''__Secure-next-auth.session-token=''"

definition match_here :: "(char \<Rightarrow> bool) \<Rightarrow> string \<Rightarrow> string option" where
  "match_here cls s =
     (if prefix session_token_key s
      then (let g = takeWhile cls (drop (length session_token_key) s)
            in if g = [] then None else Some g)
      else None)"

fun FindStringSubmatch :: "(char \<Rightarrow> bool) \<Rightarrow> string \<Rightarrow> string option" where
  "FindStringSubmatch cls [] = None"
| "FindStringSubmatch cls (c # cs) =
     (case match_here cls (c # cs) of
        Some g \<Rightarrow> Some g
      | None \<Rightarrow> FindStringSubmatch cls cs)"

definition extractSessionToken :: "string \<Rightarrow> string" where
  "extractSessionToken cookie =
     (case FindStringSubmatch (\<lambda>c. c \<noteq> CHR '';'' \<and> \<not> perl_space c) cookie of
        Some m \<Rightarrow> TrimSpace m
      | None \<Rightarrow>
          (case FindStringSubmatch (\<lambda>c. \<not> perl_space c \<and> c \<noteq> CHR '';'') cookie of
             Some m \<Rightarrow> TrimSpace m
           | None \<Rightarrow>
               (let cookie' = TrimSpace cookie
                in if CHR ''='' \<notin> set cookie' \<and> length cookie' > 100 then cookie' else [])))"

text \<open>
  generateTokenID is the lower-case hexadecimal form of the MD5 digest of the secret.
  \<^verbatim>\<open>md5.Sum\<close> belongs to Go's library: it is the parameter \<open>md5_Sum\<close>, a function from
  the bytes to the 128 bits of the digest (Go's \<^verbatim>\<open>[16]byte\<close>, first byte most
  significant).
\<close>

definition digest_bytes :: "128 word \<Rightarrow> 8 word list" where
  "digest_bytes w = map (\<lambda>k. ucast (drop_bit (8 * (15 - k)) w)) [0..<16]"

definition hexdigit :: "8 word \<Rightarrow> char" where
  "hexdigit n = ''0123456789abcdef'' ! unat n"

definition hex_EncodeToString :: "8 word list \<Rightarrow> string" where
  "hex_EncodeToString bs = concat (map (\<lambda>b. [hexdigit (drop_bit 4 b), hexdigit (b AND 0x0F)]) bs)"

definition generateTokenID :: "(string \<Rightarrow> 128 word) \<Rightarrow> string \<Rightarrow> string" where
  "generateTokenID md5_Sum st = hex_EncodeToString (digest_bytes (md5_Sum st))"

section \<open>Loading and adding credentials\<close>

datatype pool_error =
    MkdirFailed error
  | ReadDirFailed error
  | NoSessionToken
  | TokenExists

text \<open>
  The directory \<^verbatim>\<open>dataDir/at\<close> as LoadFromDir sees it: whether \<^verbatim>\<open>os.MkdirAll\<close> fails, what
  \<^verbatim>\<open>os.ReadDir\<close> returns, and for each entry what \<^verbatim>\<open>os.ReadFile\<close> returns for it.
\<close>

record DirEntry =
  entry_Name :: string
  entry_IsDir :: bool
  entry_ReadFile :: "error + string"

record AtDir =
  dir_MkdirAll :: "error option"
  dir_ReadDir :: "error + DirEntry list"

fun LoadFromDir_loop :: "(string \<Rightarrow> 128 word) \<Rightarrow> DirEntry list \<Rightarrow> TokenPool \<Rightarrow> int
    \<Rightarrow> TokenPool \<times> int" where
  "LoadFromDir_loop md5_Sum [] p loaded = (p, loaded)"
| "LoadFromDir_loop md5_Sum (f # files) p loaded =
     (if entry_IsDir f then LoadFromDir_loop md5_Sum files p loaded
      else
        (case entry_ReadFile f of
           Inl err \<Rightarrow> LoadFromDir_loop md5_Sum files p loaded
         | Inr content \<Rightarrow>
             (let st = extractSessionToken content in
              if st = [] then LoadFromDir_loop md5_Sum files p loaded
              else
                (let tokenID = generateTokenID md5_Sum st in
                 if map_of (tokens p) tokenID = None
                 then
                   (let token = newFlowToken tokenID st in
                    LoadFromDir_loop md5_Sum files
                      (p\<lparr>tokens := AList.update tokenID token (tokens p),
                         client := AddToken (client p) token\<rparr>)
                      (loaded + 1))
                 else LoadFromDir_loop md5_Sum files p loaded))))"

text \<open>LoadFromDir returns the pool after the call and Go's result pair (count, error).\<close>

definition LoadFromDir :: "(string \<Rightarrow> 128 word) \<Rightarrow> AtDir \<Rightarrow> TokenPool
    \<Rightarrow> TokenPool \<times> int \<times> pool_error option" where
  "LoadFromDir md5_Sum dir p =
     (case dir_MkdirAll dir of
        Some err \<Rightarrow> (p, 0, Some (MkdirFailed err))
      | None \<Rightarrow>
          (case dir_ReadDir dir of
             Inl err \<Rightarrow> (p, 0, Some (ReadDirFailed err))
           | Inr files \<Rightarrow>
               (case LoadFromDir_loop md5_Sum files p 0 of
                  (p', loaded) \<Rightarrow> (p', loaded, None))))"

text \<open>
  AddFromCookie returns the pool, Go's result pair (tokenID, error) and the file that
  saveTokenToFile writes (name under \<^verbatim>\<open>dataDir/at\<close>, content); a failure of that write is
  only logged.
\<close>

definition saveTokenToFile :: "string \<Rightarrow> string \<Rightarrow> string \<times> string" where
  "saveTokenToFile tokenID cookie = (take 16 tokenID @ ''.txt'', cookie)"

definition AddFromCookie :: "(string \<Rightarrow> 128 word) \<Rightarrow> string \<Rightarrow> TokenPool
    \<Rightarrow> TokenPool \<times> string \<times> pool_error option \<times> (string \<times> string) option" where
  "AddFromCookie md5_Sum cookie p =
     (let st = extractSessionToken cookie in
      if st = [] then (p, [], Some NoSessionToken, None)
      else
        (let tokenID = generateTokenID md5_Sum st in
         if map_of (tokens p) tokenID \<noteq> None then (p, tokenID, Some TokenExists, None)
         else
           (let token = newFlowToken tokenID st in
            (p\<lparr>tokens := AList.update tokenID token (tokens p),
               client := AddToken (client p) token\<rparr>,
             tokenID, None, Some (saveTokenToFile tokenID cookie)))))"

section \<open>Refreshing access tokens\<close>

text \<open>
  The transport client and the clock as the refresh code sees them: \<open>STToAT_r\<close> is the
  answer of \<^verbatim>\<open>client.STToAT\<close> for a session token, \<open>time_Parse\<close> is
  \<^verbatim>\<open>time.Parse(time.RFC3339, _)\<close> (\<open>None\<close> when it fails) and \<open>time_Now\<close> is the reading of
  \<^verbatim>\<open>time.Now()\<close> taken while the token with the given ID is examined.
\<close>

record STToATResponse =
  AccessToken :: string
  Expires :: string
  resp_Email :: string

record RefreshEnv =
  STToAT_r :: "string \<Rightarrow> error + STToATResponse"
  time_Parse :: "string \<Rightarrow> Time option"
  time_Now :: "string \<Rightarrow> Time"

text \<open>The assignments both refresh paths and ensureATValid make from a response.\<close>

definition store_access :: "RefreshEnv \<Rightarrow> STToATResponse \<Rightarrow> FlowToken \<Rightarrow> FlowToken" where
  "store_access env resp token =
     token\<lparr>AT := AccessToken resp,
           ATExpires :=
             (if Expires resp \<noteq> []
              then (case time_Parse env (Expires resp) of Some t \<Rightarrow> t | None \<Rightarrow> ATExpires token)
              else ATExpires token),
           Email := resp_Email resp\<rparr>"

definition refreshSingleToken :: "bool \<Rightarrow> RefreshEnv \<Rightarrow> FlowToken \<Rightarrow> FlowToken" where
  "refreshSingleToken has_client env token =
     (if \<not> has_client then token
      else
        (case STToAT_r env (ST token) of
           Inl err \<Rightarrow> token\<lparr>ErrorCount := ErrorCount token + 1\<rparr>
         | Inr resp \<Rightarrow> (store_access env resp token)\<lparr>ErrorCount := 0, Disabled := False\<rparr>))"

definition needRefresh :: "RefreshEnv \<Rightarrow> FlowToken \<Rightarrow> bool" where
  "needRefresh env token \<longleftrightarrow>
     AT token = [] \<or> time_Now env (ID token) > ATExpires token + (- 5 * Minute)"

text \<open>The body of the loop of refreshAllAT for one token.\<close>

definition refreshAllAT_body :: "bool \<Rightarrow> RefreshEnv \<Rightarrow> FlowToken \<Rightarrow> FlowToken" where
  "refreshAllAT_body has_client env token =
     (if \<not> needRefresh env token then token
      else if \<not> has_client then token
      else
        (case STToAT_r env (ST token) of
           Inl err \<Rightarrow>
             (let token1 = token\<lparr>ErrorCount := ErrorCount token + 1\<rparr>
              in if ErrorCount token1 \<ge> 3 then token1\<lparr>Disabled := True\<rparr> else token1)
         | Inr resp \<Rightarrow> (store_access env resp token)\<lparr>ErrorCount := 0, Disabled := False\<rparr>))"

fun refreshAllAT_loop :: "bool \<Rightarrow> RefreshEnv \<Rightarrow> (string \<times> FlowToken) list
    \<Rightarrow> (string \<times> FlowToken) list" where
  "refreshAllAT_loop has_client env [] = []"
| "refreshAllAT_loop has_client env ((k, token) # rest) =
     (k, refreshAllAT_body has_client env token) # refreshAllAT_loop has_client env rest"

text \<open>
  The tokens are pointers shared by the map and the snapshot slice: what the loop
  assigns to a token is what the map holds afterwards.
\<close>

definition refreshAllAT :: "RefreshEnv \<Rightarrow> TokenPool \<Rightarrow> TokenPool" where
  "refreshAllAT env p = p\<lparr>tokens := refreshAllAT_loop (client p \<noteq> None) env (tokens p)\<rparr>"

section \<open>File events\<close>

text \<open>\<^verbatim>\<open>filepath.Base\<close> with the separator \<^verbatim>\<open>/\<close>.\<close>

definition Base :: "string \<Rightarrow> string" where
  "Base path =
     (if path = [] then ''.''
      else
        (let stripped = rev (dropWhile (\<lambda>c. c = CHR ''/'') (rev path));
             last_element = rev (takeWhile (\<lambda>c. c \<noteq> CHR ''/'') (rev stripped))
         in if last_element = [] then ''/'' else last_element))"

text \<open>
  \<^verbatim>\<open>strings.EqualFold(fileName, "README.md")\<close>: no letter of the name has a case fold
  outside ASCII, so the comparison is equality after lowering the letters A to Z.
\<close>

definition ascii_lower :: "char \<Rightarrow> char" where
  "ascii_lower c =
     (let n = (of_char c :: nat) in if 65 \<le> n \<and> n \<le> 90 then char_of (n + 32) else c)"

definition EqualFold_README :: "string \<Rightarrow> bool" where
  "EqualFold_README s \<longleftrightarrow> map ascii_lower s = ''readme.md''"

text \<open>
  loadTokenFromFile, with the result of \<^verbatim>\<open>os.ReadFile(filePath)\<close> as an argument. The
  goroutine \<^verbatim>\<open>go p.refreshSingleToken(token)\<close> is run where it is started.
\<close>

definition loadTokenFromFile_register :: "(string \<Rightarrow> 128 word) \<Rightarrow> RefreshEnv \<Rightarrow> string
    \<Rightarrow> string \<Rightarrow> string \<Rightarrow> TokenPool \<Rightarrow> TokenPool" where
  "loadTokenFromFile_register md5_Sum env fileName tokenID st p =
     (if map_of (tokens p) tokenID = None
      then
        (let token = newFlowToken tokenID st in
         p\<lparr>tokens :=
             AList.update tokenID (refreshSingleToken (client p \<noteq> None) env token) (tokens p),
           fileIndex := (fileIndex p)(fileName \<mapsto> tokenID),
           client := AddToken (client p) token\<rparr>)
      else p)"

definition loadTokenFromFile :: "(string \<Rightarrow> 128 word) \<Rightarrow> RefreshEnv \<Rightarrow> error + string
    \<Rightarrow> string \<Rightarrow> TokenPool \<Rightarrow> TokenPool" where
  "loadTokenFromFile md5_Sum env read_result filePath p =
     (let fileName = Base filePath in
      case read_result of
        Inl err \<Rightarrow> p
      | Inr content \<Rightarrow>
          (let st = extractSessionToken content in
           if st = [] then p
           else
             (let tokenID = generateTokenID md5_Sum st in
              case fileIndex p fileName of
                Some existingID \<Rightarrow>
                  if existingID = tokenID then p
                  else loadTokenFromFile_register md5_Sum env fileName tokenID st
                         (p\<lparr>tokens := AList.delete existingID (tokens p)\<rparr>)
              | None \<Rightarrow> loadTokenFromFile_register md5_Sum env fileName tokenID st p)))"

definition removeTokenByFile :: "string \<Rightarrow> TokenPool \<Rightarrow> TokenPool" where
  "removeTokenByFile fileName p =
     (case fileIndex p fileName of
        None \<Rightarrow> p
      | Some tokenID \<Rightarrow>
          p\<lparr>tokens := AList.delete tokenID (tokens p),
            fileIndex := (fileIndex p)(fileName := None)\<rparr>)"

text \<open>
  An event of fsnotify: the path and the bit set \<^verbatim>\<open>Op\<close>, whose constants are
  \<^verbatim>\<open>1 << iota\<close> in the order Create, Write, Remove, Rename, Chmod.
\<close>

record Event =
  event_Name :: string
  event_Op :: "32 word"

definition Create :: "32 word" where "Create = 1"
definition Write :: "32 word" where "Write = 2"
definition Remove :: "32 word" where "Remove = 4"
definition Rename :: "32 word" where "Rename = 8"

definition handleFileEvent :: "(string \<Rightarrow> 128 word) \<Rightarrow> RefreshEnv \<Rightarrow> (string \<Rightarrow> error + string)
    \<Rightarrow> Event \<Rightarrow> TokenPool \<Rightarrow> TokenPool" where
  "handleFileEvent md5_Sum env ReadFile event p =
     (let fileName = Base (event_Name event) in
      if prefix ''.'' fileName \<or> EqualFold_README fileName then p
      else if event_Op event AND Create = Create
        then loadTokenFromFile md5_Sum env (ReadFile (event_Name event)) (event_Name event) p
      else if event_Op event AND Write = Write
        then loadTokenFromFile md5_Sum env (ReadFile (event_Name event)) (event_Name event) p
      else if event_Op event AND Remove = Remove then removeTokenByFile fileName p
      else if event_Op event AND Rename = Rename then removeTokenByFile fileName p
      else p)"

section \<open>Generation handler: data model\<close>

text \<open>
  ModelConfig and its constants are declared with the model table, whose source is not
  part of this development. The record has the fields the handler reads;
  \<open>ModelTypeVideo\<close> stands for every value of \<^verbatim>\<open>Type\<close> other than ModelTypeImage and
  \<open>VideoTypeOther\<close> for every value of \<^verbatim>\<open>VideoType\<close> that is none of the three named
  constants.
\<close>

datatype ModelType = ModelTypeImage | ModelTypeVideo

datatype VideoType = VideoTypeT2V | VideoTypeI2V | VideoTypeR2V | VideoTypeOther

record ModelConfig =
  cfg_Type :: ModelType
  cfg_VideoType :: VideoType
  ModelName :: string
  ModelKey :: string
  AspectRatio :: string
  MinImages :: int
  MaxImages :: int

record GenerationRequest =
  Model :: string
  Prompt :: string
  Images :: "8 word list list"
  Stream :: bool

text \<open>
  The error of pollVideoResult and the failure messages of GenerationResult, one
  constructor for each message the handler formats.
\<close>

datatype poll_error =
    VideoGenerationFailed string
  | VideoGenerationTimeout int

datatype failure =
    UnsupportedModel string
  | NoFlowToken
  | AuthFailed error
  | CreateProjectFailed error
  | UploadImageFailed error
  | GenerateImageFailed error
  | EmptyResult
  | ImageCountInvalid int int int
  | UploadStartFrameFailed error
  | UploadEndFrameFailed error
  | SubmitFailed error
  | TaskCreateFailed
  | PollFailed poll_error

record GenerationResult =
  Success :: bool
  res_Type :: string
  URL :: string
  Error :: "failure option"

definition failure_result :: "failure \<Rightarrow> GenerationResult" where
  "failure_result f = \<lparr>Success = False, res_Type = [], URL = [], Error = Some f\<rparr>"

text \<open>
  What a run of the handler does to the outside, in order: the chunks passed to the
  stream callback (the narration and the flag \<^verbatim>\<open>isFinish\<close> of createStreamChunk), the
  calls of the transport client with the arguments that identify them, and the sleeps
  with the \<^verbatim>\<open>time.Duration\<close> requested, in nanoseconds.
\<close>

datatype narration =
    ImageStarted
  | UploadingReferences int
  | UploadedImage int int
  | GeneratingImage
  | ImageLink string
  | VideoStarted
  | T2VIgnoresImages
  | UploadingStartFrame
  | UploadingEndFrame
  | SubmittingVideo
  | VideoGenerating
  | Progress int
  | VideoTag string

datatype call =
    is_Emit: Emit narration bool
  | Sleep int
  | STToAT string
  | GetCredits string
  | CreateProject string string
  | is_UploadImage: UploadImage string "8 word list" string
  | GenerateImage string string string string string "string list"
  | GenerateVideoStartEnd string string string string string string string string
  | GenerateVideoReferenceImages string string string string string "string list" string
  | GenerateVideoText string string string string string string
  | is_CheckVideoStatus: CheckVideoStatus string string string

text \<open>\<^verbatim>\<open>if streamCb != nil { streamCb(h.createStreamChunk(content, isFinish)) }\<close>\<close>

definition emit :: "bool \<Rightarrow> narration \<Rightarrow> bool \<Rightarrow> call list" where
  "emit streamCb content isFinish = (if streamCb then [Emit content isFinish] else [])"

record CreditsResponse =
  resp_Credits :: int
  resp_UserPaygateTier :: string

record GenerateVideoResponse =
  TaskID :: string
  SceneID :: string

record VideoStatusResponse =
  Status :: string
  VideoURL :: string

text \<open>
  The transport client, the clock and the configuration as one request sees them.
  \<open>UploadImage_r k\<close> answers the upload call that \<open>k\<close> upload calls precede,
  \<open>CheckVideoStatus_r k\<close> the status query that \<open>k\<close> status queries precede;
  \<open>GenerateVideo_r\<close> answers whichever of the three submission calls is made.
  \<open>refresh_env\<close> gives \<^verbatim>\<open>client.STToAT\<close>, \<^verbatim>\<open>time.Parse\<close> and the \<^verbatim>\<open>time.Now()\<close> of ensureATValid;
  \<open>now_finish\<close> is \<^verbatim>\<open>time.Now()\<close> where \<^verbatim>\<open>LastUsed\<close> is assigned.
\<close>

record HandlerEnv =
  refresh_env :: RefreshEnv
  GetCredits_r :: "string \<Rightarrow> error + CreditsResponse"
  CreateProject_r :: "string \<Rightarrow> string \<Rightarrow> error + string"
  UploadImage_r :: "nat \<Rightarrow> error + string"
  GenerateImage_r :: "error + string"
  GenerateVideo_r :: "error + GenerateVideoResponse"
  CheckVideoStatus_r :: "nat \<Rightarrow> error + VideoStatusResponse"
  MaxPollAttempts :: int
  PollInterval :: int
  now_finish :: Time

section \<open>Generation handler: the polling loop\<close>

text \<open>A value of Go's \<^verbatim>\<open>int\<close> or \<^verbatim>\<open>int64\<close> after an operation that may leave the range.\<close>

definition wrap64 :: "int \<Rightarrow> int" where
  "wrap64 x = (x + 2 ^ 63) mod 2 ^ 64 - 2 ^ 63"

definition Second :: int where
  "Second = 1000000000"

definition min_go :: "int \<Rightarrow> int \<Rightarrow> int" where
  "min_go a b = (if a < b then a else b)"

text \<open>Go's \<^verbatim>\<open>/\<close> and \<^verbatim>\<open>%\<close> truncate towards zero: \<open>sdiv\<close> and \<open>smod\<close>.\<close>

definition progress :: "int \<Rightarrow> int \<Rightarrow> int" where
  "progress i maxAttempts = min_go (wrap64 (i * 100) sdiv maxAttempts) 95"

definition STATUS_SUCCESSFUL :: string where
  "STATUS_SUCCESSFUL = ''MEDIA_GENERATION_STATUS_SUCCESSFUL''"

definition error_statuses :: "string list" where
  "error_statuses =
     [''MEDIA_GENERATION_STATUS_ERROR_UNKNOWN'', ''MEDIA_GENERATION_STATUS_ERROR_NSFW'',
      ''MEDIA_GENERATION_STATUS_ERROR_PERSON'', ''MEDIA_GENERATION_STATUS_ERROR_SAFETY'']"

text \<open>
  The body of the loop of pollVideoResult at index \<open>i\<close>: what it does, and \<open>Some\<close> of what
  it returns, or \<open>None\<close> when the loop goes on with \<open>i + 1\<close>.
\<close>

definition pollVideoResult_body :: "HandlerEnv \<Rightarrow> bool \<Rightarrow> string \<Rightarrow> string \<Rightarrow> string \<Rightarrow> int \<Rightarrow> int
    \<Rightarrow> int \<Rightarrow> call list \<times> (poll_error + string) option" where
  "pollVideoResult_body env streamCb at taskID sceneID maxAttempts pollInterval i =
     (let slept = [Sleep (wrap64 (wrap64 pollInterval * Second)),
                   CheckVideoStatus at taskID sceneID]
      in case CheckVideoStatus_r env (nat i) of
           Inl err \<Rightarrow> (slept, None)
         | Inr resp \<Rightarrow>
             (let done = slept @
                    (if streamCb \<and> i smod 7 = 0
                     then [Emit (Progress (progress i maxAttempts)) False] else [])
              in if Status resp = STATUS_SUCCESSFUL
                 then (if VideoURL resp \<noteq> [] then (done, Some (Inr (VideoURL resp)))
                       else (done, None))
                 else if Status resp \<in> set error_statuses
                 then (done, Some (Inl (VideoGenerationFailed (Status resp))))
                 else (done, None)))"

function pollVideoResult_loop :: "HandlerEnv \<Rightarrow> bool \<Rightarrow> string \<Rightarrow> string \<Rightarrow> string \<Rightarrow> int \<Rightarrow> int
    \<Rightarrow> int \<Rightarrow> call list \<times> (poll_error + string)" where
  "pollVideoResult_loop env streamCb at taskID sceneID maxAttempts pollInterval i =
     (if i < maxAttempts
      then
        (case pollVideoResult_body env streamCb at taskID sceneID maxAttempts pollInterval i of
           (calls, Some r) \<Rightarrow> (calls, r)
         | (calls, None) \<Rightarrow>
             (case pollVideoResult_loop env streamCb at taskID sceneID maxAttempts
                     pollInterval (i + 1) of
                (rest, r) \<Rightarrow> (calls @ rest, r)))
      else ([], Inl (VideoGenerationTimeout maxAttempts)))"
  by pat_completeness auto
termination
  by (relation "measure (\<lambda>(env, streamCb, at, taskID, sceneID, maxAttempts, pollInterval, i).
        nat (maxAttempts - i))") auto

declare pollVideoResult_loop.simps [simp del]

definition pollVideoResult :: "HandlerEnv \<Rightarrow> bool \<Rightarrow> FlowToken \<Rightarrow> string \<Rightarrow> string
    \<Rightarrow> call list \<times> (poll_error + string)" where
  "pollVideoResult env streamCb token taskID sceneID =
     pollVideoResult_loop env streamCb (AT token) taskID sceneID
       (MaxPollAttempts env) (PollInterval env) 0"

section \<open>Generation handler: the steps of a request\<close>

text \<open>
  Each step returns the calls it makes, the token as it leaves it, and its result.
\<close>

definition ensureATValid :: "HandlerEnv \<Rightarrow> FlowToken \<Rightarrow> call list \<times> FlowToken \<times> error option" where
  "ensureATValid env token =
     (if AT token \<noteq> [] \<and>
         time_Now (refresh_env env) (ID token) < ATExpires token + (- 5 * Minute)
      then ([], token, None)
      else
        (case STToAT_r (refresh_env env) (ST token) of
           Inl err \<Rightarrow> ([STToAT (ST token)], token, Some err)
         | Inr resp \<Rightarrow>
             ([STToAT (ST token)], store_access (refresh_env env) resp token, None)))"

text \<open>
  updateTokenCredits is started as a goroutine by HandleGeneration; it is run where it
  is started.
\<close>

definition updateTokenCredits :: "HandlerEnv \<Rightarrow> FlowToken \<Rightarrow> call list \<times> FlowToken" where
  "updateTokenCredits env token =
     (if AT token = [] then ([], token)
      else
        (case GetCredits_r env (AT token) of
           Inl err \<Rightarrow> ([GetCredits (AT token)], token)
         | Inr resp \<Rightarrow>
             ([GetCredits (AT token)],
              token\<lparr>Credits := resp_Credits resp,
                    UserPaygateTier := resp_UserPaygateTier resp\<rparr>)))"

definition ensureProjectExists :: "HandlerEnv \<Rightarrow> FlowToken
    \<Rightarrow> call list \<times> FlowToken \<times> error option" where
  "ensureProjectExists env token =
     (if ProjectID token \<noteq> [] then ([], token, None)
      else
        (case CreateProject_r env (ST token) ''Flow2API'' of
           Inl err \<Rightarrow> ([CreateProject (ST token) ''Flow2API''], token, Some err)
         | Inr projectID \<Rightarrow>
             ([CreateProject (ST token) ''Flow2API''], token\<lparr>ProjectID := projectID\<rparr>, None)))"

text \<open>
  The upload loop of handleImageGeneration from image \<open>i\<close> on: the calls, and the error
  of the first failing upload or the media IDs.
\<close>

fun image_upload_loop :: "HandlerEnv \<Rightarrow> bool \<Rightarrow> string \<Rightarrow> string \<Rightarrow> int \<Rightarrow> 8 word list list
    \<Rightarrow> nat \<Rightarrow> call list \<times> (error + string list)" where
  "image_upload_loop env streamCb at aspect n [] i = ([], Inr [])"
| "image_upload_loop env streamCb at aspect n (imgBytes # rest) i =
     (case UploadImage_r env i of
        Inl err \<Rightarrow> ([UploadImage at imgBytes aspect], Inl err)
      | Inr mediaID \<Rightarrow>
          (case image_upload_loop env streamCb at aspect n rest (i + 1) of
             (calls, r) \<Rightarrow>
               (UploadImage at imgBytes aspect #
                  emit streamCb (UploadedImage (int i + 1) n) False @ calls,
                (case r of Inl err \<Rightarrow> Inl err | Inr ids \<Rightarrow> Inr (mediaID # ids)))))"

definition handleImageGeneration :: "HandlerEnv \<Rightarrow> bool \<Rightarrow> FlowToken \<Rightarrow> ModelConfig
    \<Rightarrow> GenerationRequest \<Rightarrow> call list \<times> FlowToken \<times> GenerationResult" where
  "handleImageGeneration env streamCb token modelConfig req =
     (let started = emit streamCb ImageStarted False;
          n = int (length (Images req))
      in case (if length (Images req) > 0
               then (case image_upload_loop env streamCb (AT token)
                            (AspectRatio modelConfig) n (Images req) 0 of
                       (calls, r) \<Rightarrow> (emit streamCb (UploadingReferences n) False @ calls, r))
               else ([], Inr [])) of
           (uploaded, Inl err) \<Rightarrow>
             (started @ uploaded, token, failure_result (UploadImageFailed err))
         | (uploaded, Inr imageInputs) \<Rightarrow>
             (let submitted = started @ uploaded @ emit streamCb GeneratingImage False @
                    [GenerateImage (AT token) (ProjectID token) (Prompt req)
                       (ModelName modelConfig) (AspectRatio modelConfig) imageInputs]
              in case GenerateImage_r env of
                   Inl err \<Rightarrow>
                     (submitted, token\<lparr>ErrorCount := ErrorCount token + 1\<rparr>,
                      failure_result (GenerateImageFailed err))
                 | Inr imageURL \<Rightarrow>
                     if imageURL = [] then (submitted, token, failure_result EmptyResult)
                     else
                       (submitted @ emit streamCb (ImageLink imageURL) True,
                        token\<lparr>LastUsed := now_finish env, ErrorCount := 0\<rparr>,
                        \<lparr>Success = True, res_Type = ''image'', URL = imageURL,
                         Error = None\<rparr>)))"

text \<open>
  handleVideoGeneration, first part: the check of the number of images. The result is
  the failure returned or the value of \<^verbatim>\<open>req.Images\<close> afterwards.
\<close>

definition video_check_images :: "bool \<Rightarrow> ModelConfig \<Rightarrow> 8 word list list
    \<Rightarrow> call list \<times> (failure + 8 word list list)" where
  "video_check_images streamCb modelConfig images =
     (let imageCount = int (length images) in
      if cfg_VideoType modelConfig = VideoTypeT2V
      then (if imageCount > 0 then (emit streamCb T2VIgnoresImages False, Inr [])
            else ([], Inr images))
      else if cfg_VideoType modelConfig = VideoTypeI2V
      then (if imageCount < MinImages modelConfig \<or> imageCount > MaxImages modelConfig
            then ([], Inl (ImageCountInvalid (MinImages modelConfig) (MaxImages modelConfig)
                             imageCount))
            else ([], Inr images))
      else ([], Inr images))"

fun video_reference_loop :: "HandlerEnv \<Rightarrow> string \<Rightarrow> string \<Rightarrow> 8 word list list \<Rightarrow> nat
    \<Rightarrow> call list \<times> (error + string list)" where
  "video_reference_loop env at aspect [] i = ([], Inr [])"
| "video_reference_loop env at aspect (imgBytes # rest) i =
     (case UploadImage_r env i of
        Inl err \<Rightarrow> ([UploadImage at imgBytes aspect], Inl err)
      | Inr mediaID \<Rightarrow>
          (case video_reference_loop env at aspect rest (i + 1) of
             (calls, r) \<Rightarrow>
               (UploadImage at imgBytes aspect # calls,
                (case r of Inl err \<Rightarrow> Inl err | Inr ids \<Rightarrow> Inr (mediaID # ids)))))"

text \<open>
  Second part: the uploads. The result is the failure returned or
  (startMediaID, endMediaID, referenceImages).
\<close>

definition video_upload :: "HandlerEnv \<Rightarrow> bool \<Rightarrow> FlowToken \<Rightarrow> ModelConfig \<Rightarrow> 8 word list list
    \<Rightarrow> call list \<times> (failure + string \<times> string \<times> string list)" where
  "video_upload env streamCb token modelConfig images =
     (if cfg_VideoType modelConfig = VideoTypeI2V \<and> length images > 0
      then
        (let first = emit streamCb UploadingStartFrame False @
               [UploadImage (AT token) (images ! 0) (AspectRatio modelConfig)]
         in case UploadImage_r env 0 of
              Inl err \<Rightarrow> (first, Inl (UploadStartFrameFailed err))
            | Inr startMediaID \<Rightarrow>
                if length images = 2
                then
                  (let second = first @ emit streamCb UploadingEndFrame False @
                         [UploadImage (AT token) (images ! 1) (AspectRatio modelConfig)]
                   in case UploadImage_r env 1 of
                        Inl err \<Rightarrow> (second, Inl (UploadEndFrameFailed err))
                      | Inr endMediaID \<Rightarrow> (second, Inr (startMediaID, endMediaID, [])))
                else (first, Inr (startMediaID, [], [])))
      else if cfg_VideoType modelConfig = VideoTypeR2V \<and> length images > 0
      then
        (case video_reference_loop env (AT token) (AspectRatio modelConfig) images 0 of
           (calls, r) \<Rightarrow>
             (emit streamCb (UploadingReferences (int (length images))) False @ calls,
              (case r of
                 Inl err \<Rightarrow> Inl (UploadImageFailed err)
               | Inr ids \<Rightarrow> Inr ([], [], ids))))
      else ([], Inr ([], [], [])))"

text \<open>Third part: which of the three submission calls is made.\<close>

definition video_submit_call :: "FlowToken \<Rightarrow> ModelConfig \<Rightarrow> string \<Rightarrow> string \<Rightarrow> string
    \<Rightarrow> string list \<Rightarrow> call" where
  "video_submit_call token modelConfig prompt startMediaID endMediaID referenceImages =
     (let userTier = (if UserPaygateTier token = [] then ''PAYGATE_TIER_ONE''
                      else UserPaygateTier token)
      in case cfg_VideoType modelConfig of
           VideoTypeI2V \<Rightarrow>
             GenerateVideoStartEnd (AT token) (ProjectID token) prompt (ModelKey modelConfig)
               (AspectRatio modelConfig) startMediaID endMediaID userTier
         | VideoTypeR2V \<Rightarrow>
             GenerateVideoReferenceImages (AT token) (ProjectID token) prompt
               (ModelKey modelConfig) (AspectRatio modelConfig) referenceImages userTier
         | _ \<Rightarrow>
             GenerateVideoText (AT token) (ProjectID token) prompt (ModelKey modelConfig)
               (AspectRatio modelConfig) userTier)"

definition handleVideoGeneration :: "HandlerEnv \<Rightarrow> bool \<Rightarrow> FlowToken \<Rightarrow> ModelConfig
    \<Rightarrow> GenerationRequest \<Rightarrow> call list \<times> FlowToken \<times> GenerationResult" where
  "handleVideoGeneration env streamCb token modelConfig req =
     (let started = emit streamCb VideoStarted False in
      case video_check_images streamCb modelConfig (Images req) of
        (checked, Inl f) \<Rightarrow> (started @ checked, token, failure_result f)
      | (checked, Inr images) \<Rightarrow>
          (case video_upload env streamCb token modelConfig images of
             (uploaded, Inl f) \<Rightarrow> (started @ checked @ uploaded, token, failure_result f)
           | (uploaded, Inr (startMediaID, endMediaID, referenceImages)) \<Rightarrow>
               (let submitted = started @ checked @ uploaded @
                      emit streamCb SubmittingVideo False @
                      [video_submit_call token modelConfig (Prompt req) startMediaID
                         endMediaID referenceImages]
                in case GenerateVideo_r env of
                     Inl err \<Rightarrow>
                       (submitted, token\<lparr>ErrorCount := ErrorCount token + 1\<rparr>,
                        failure_result (SubmitFailed err))
                   | Inr videoResp \<Rightarrow>
                       if TaskID videoResp = []
                       then (submitted, token, failure_result TaskCreateFailed)
                       else
                         (case pollVideoResult env streamCb token (TaskID videoResp)
                                 (SceneID videoResp) of
                            (polled, Inl err) \<Rightarrow>
                              (submitted @ emit streamCb VideoGenerating False @ polled,
                               token, failure_result (PollFailed err))
                          | (polled, Inr videoURL) \<Rightarrow>
                              (submitted @ emit streamCb VideoGenerating False @ polled @
                                 emit streamCb (VideoTag videoURL) True,
                               token\<lparr>LastUsed := now_finish env, ErrorCount := 0\<rparr>,
                               \<lparr>Success = True, res_Type = ''video'', URL = videoURL,
                                Error = None\<rparr>)))))"

text \<open>
  HandleGeneration. The model table \<^verbatim>\<open>GetFlowModelConfig\<close> and the token that
  \<^verbatim>\<open>client.SelectToken()\<close> returns (\<open>None\<close> for nil) belong to the transport client and
  are arguments. The second component of the result is the selected token as the
  request leaves it, \<open>None\<close> when no token was selected.
\<close>

definition HandleGeneration :: "(string \<Rightarrow> ModelConfig option) \<Rightarrow> FlowToken option \<Rightarrow> HandlerEnv
    \<Rightarrow> bool \<Rightarrow> GenerationRequest \<Rightarrow> call list \<times> FlowToken option \<times> GenerationResult" where
  "HandleGeneration GetFlowModelConfig SelectToken env streamCb req =
     (case GetFlowModelConfig (Model req) of
        None \<Rightarrow> ([], None, failure_result (UnsupportedModel (Model req)))
      | Some modelConfig \<Rightarrow>
          (case SelectToken of
             None \<Rightarrow> ([], None, failure_result NoFlowToken)
           | Some token \<Rightarrow>
               (case ensureATValid env token of
                  (calls1, token1, Some err) \<Rightarrow>
                    (calls1, Some token1, failure_result (AuthFailed err))
                | (calls1, token1, None) \<Rightarrow>
                    (case updateTokenCredits env token1 of
                       (calls2, token2) \<Rightarrow>
                         (case ensureProjectExists env token2 of
                            (calls3, token3, Some err) \<Rightarrow>
                              (calls1 @ calls2 @ calls3, Some token3,
                               failure_result (CreateProjectFailed err))
                          | (calls3, token3, None) \<Rightarrow>
                              (case (if cfg_Type modelConfig = ModelTypeImage
                                     then handleImageGeneration env streamCb token3
                                            modelConfig req
                                     else handleVideoGeneration env streamCb token3
                                            modelConfig req) of
                                 (calls4, token4, result) \<Rightarrow>
                                   (calls1 @ calls2 @ calls3 @ calls4, Some token4,
                                    result)))))))"

section \<open>Well-formed pools\<close>

text \<open>
  What holds of every pool the code builds: the keys of the map are distinct, and each
  token is stored under its ID, which is generateTokenID of its session token.
  \<open>loadable\<close> says that LoadFromDir gets a session token from a directory entry, and
  \<open>entry_tokenID\<close> is the ID it derives from it.
\<close>

definition pool_wf :: "(string \<Rightarrow> 128 word) \<Rightarrow> TokenPool \<Rightarrow> bool" where
  "pool_wf md5_Sum p \<longleftrightarrow>
     distinct (map fst (tokens p)) \<and>
     list_all (\<lambda>(k, t). ID t = k \<and> k = generateTokenID md5_Sum (ST t)) (tokens p)"

definition loadable :: "DirEntry \<Rightarrow> bool" where
  "loadable f \<longleftrightarrow>
     \<not> entry_IsDir f \<and>
     (case entry_ReadFile f of Inl err \<Rightarrow> False | Inr content \<Rightarrow> extractSessionToken content \<noteq> [])"

definition entry_tokenID :: "(string \<Rightarrow> 128 word) \<Rightarrow> DirEntry \<Rightarrow> string" where
  "entry_tokenID md5_Sum f =
     (case entry_ReadFile f of Inl err \<Rightarrow> [] | Inr content \<Rightarrow> generateTokenID md5_Sum (extractSessionToken content))"

text \<open>The pool without the token stored under \<open>k\<close>.\<close>

definition without :: "TokenPool \<Rightarrow> string \<Rightarrow> TokenPool" where
  "without p k = p\<lparr>tokens := AList.delete k (tokens p)\<rparr>"

section \<open>Terminal statuses\<close>

text \<open>
  A status answer is terminal when it ends the polling: success with a video URL, or one
  of the error statuses. \<open>query_events\<close> keeps the sleeps and the status queries of a
  run and leaves out the chunks.
\<close>

definition terminal :: "VideoStatusResponse \<Rightarrow> bool" where
  "terminal resp \<longleftrightarrow>
     (Status resp = STATUS_SUCCESSFUL \<and> VideoURL resp \<noteq> []) \<or> Status resp \<in> set error_statuses"

definition query_events :: "call list \<Rightarrow> call list" where
  "query_events calls = filter (\<lambda>c. \<not> is_Emit c) calls"

section \<open>Bookkeeping of a generation\<close>

text \<open>
  What the two branches do to the token, read off their result: a success stamps
  \<^verbatim>\<open>LastUsed\<close> and resets the error count, a failure of the generation call (GenerateImage,
  or the submission of the video) adds one to the error count, and every other failure
  leaves the token as it is.
\<close>

fun is_submit_failure :: "failure \<Rightarrow> bool" where
  "is_submit_failure (GenerateImageFailed err) = True"
| "is_submit_failure (SubmitFailed err) = True"
| "is_submit_failure f = False"

definition submission_failed :: "GenerationResult \<Rightarrow> bool" where
  "submission_failed result \<longleftrightarrow>
     (case Error result of Some f \<Rightarrow> is_submit_failure f | None \<Rightarrow> False)"

definition bookkeeping :: "HandlerEnv \<Rightarrow> FlowToken \<Rightarrow> GenerationResult \<Rightarrow> FlowToken" where
  "bookkeeping env token result =
     (if Success result then token\<lparr>LastUsed := now_finish env, ErrorCount := 0\<rparr>
      else if submission_failed result then token\<lparr>ErrorCount := ErrorCount token + 1\<rparr>
      else token)"

section \<open>Example inputs\<close>

text \<open>A stand-in for \<^verbatim>\<open>md5.Sum\<close> in examples: the length of the input as a digest.\<close>

definition example_md5 :: "string \<Rightarrow> 128 word" where
  "example_md5 st = of_nat (length st)"

definition example_pool :: TokenPool where
  "example_pool =
     \<lparr>tokens =
        [(''00000000000000000000000000000001'',
          newFlowToken ''00000000000000000000000000000001'' ''secret-1''),
         (''00000000000000000000000000000002'',
          (newFlowToken ''00000000000000000000000000000002'' ''secret-2'')
            \<lparr>Disabled := True, ErrorCount := 3\<rparr>),
         (''00000000000000000000000000000003'',
          (newFlowToken ''00000000000000000000000000000003'' ''secret-3'')
            \<lparr>ErrorCount := 5\<rparr>)],
      dataDir = ''data'', client = None, fileIndex = Map.empty\<rparr>"

definition example_env_fail :: RefreshEnv where
  "example_env_fail =
     \<lparr>STToAT_r = (\<lambda>st. Inl ''401 Unauthorized''), time_Parse = (\<lambda>s. None),
      time_Now = (\<lambda>tokenID. 0)\<rparr>"

definition example_env_ok :: RefreshEnv where
  "example_env_ok =
     \<lparr>STToAT_r = (\<lambda>st. Inr \<lparr>AccessToken = ''access-token'', Expires = [],
                                resp_Email = ''user@example.com''\<rparr>),
      time_Parse = (\<lambda>s. None), time_Now = (\<lambda>tokenID. 0)\<rparr>"

definition example_refresh_pool :: TokenPool where
  "example_refresh_pool =
     \<lparr>tokens =
        [(''00000000000000000000000000000001'',
          newFlowToken ''00000000000000000000000000000001'' ''secret-1''),
         (''00000000000000000000000000000002'',
          (newFlowToken ''00000000000000000000000000000002'' ''secret-2'')
            \<lparr>AT := ''access-2'', ATExpires := 60 * Minute\<rparr>)],
      dataDir = ''data'', client = Some [], fileIndex = Map.empty\<rparr>"

definition example_dir :: AtDir where
  "example_dir =
     \<lparr>dir_MkdirAll = None,
      dir_ReadDir = Inr
        [\<lparr>entry_Name = ''a.txt'', entry_IsDir = False,
          entry_ReadFile = Inr ''__Secure-next-auth.session-token=abc; theme=dark''\<rparr>,
         \<lparr>entry_Name = ''old'', entry_IsDir = True, entry_ReadFile = Inl ''is a directory''\<rparr>,
         \<lparr>entry_Name = ''b.txt'', entry_IsDir = False,
          entry_ReadFile = Inr ''theme=light; __Secure-next-auth.session-token=abc''\<rparr>,
         \<lparr>entry_Name = ''c.txt'', entry_IsDir = False,
          entry_ReadFile = Inl ''permission denied''\<rparr>,
         \<lparr>entry_Name = ''README.md'', entry_IsDir = False,
          entry_ReadFile = Inr ''one cookie per file''\<rparr>]\<rparr>"

definition example_token :: FlowToken where
  "example_token =
     (newFlowToken ''00000000000000000000000000000001'' ''secret-1'')
       \<lparr>AT := ''access-1'', ATExpires := 60 * Minute, ProjectID := ''project-1''\<rparr>"

definition example_pending :: VideoStatusResponse where
  "example_pending = \<lparr>Status = ''MEDIA_GENERATION_STATUS_PENDING'', VideoURL = []\<rparr>"

definition example_done :: VideoStatusResponse where
  "example_done = \<lparr>Status = STATUS_SUCCESSFUL, VideoURL = ''https://example.com/video.mp4''\<rparr>"

definition example_statuses :: "nat \<Rightarrow> VideoStatusResponse" where
  "example_statuses j = (if j = 1 then example_done else example_pending)"

definition example_handler_env :: HandlerEnv where
  "example_handler_env =
     \<lparr>refresh_env = example_env_ok,
      GetCredits_r = (\<lambda>at. Inr \<lparr>resp_Credits = 100, resp_UserPaygateTier = ''PAYGATE_TIER_TWO''\<rparr>),
      CreateProject_r = (\<lambda>st name. Inr ''project-1''),
      UploadImage_r = (\<lambda>k. Inr ''media-1''),
      GenerateImage_r = Inr ''https://example.com/image.png'',
      GenerateVideo_r = Inr \<lparr>TaskID = ''task-1'', SceneID = ''scene-1''\<rparr>,
      CheckVideoStatus_r = (\<lambda>j. Inr (example_statuses j)),
      MaxPollAttempts = 3, PollInterval = 2, now_finish = 1000\<rparr>"

definition example_handler_env_pending :: HandlerEnv where
  "example_handler_env_pending =
     example_handler_env\<lparr>CheckVideoStatus_r := (\<lambda>j. Inr example_pending)\<rparr>"

definition example_handler_env_unreachable :: HandlerEnv where
  "example_handler_env_unreachable =
     example_handler_env\<lparr>CheckVideoStatus_r := (\<lambda>j. Inl ''connection reset'')\<rparr>"

text \<open>
  A configuration whose interval of 9223372037 seconds is more nanoseconds than the
  64 bits of a \<^verbatim>\<open>time.Duration\<close> hold; the first answer is the finished video.
\<close>

definition example_handler_env_long_interval :: HandlerEnv where
  "example_handler_env_long_interval =
     example_handler_env\<lparr>CheckVideoStatus_r := (\<lambda>j. Inr example_done),
       MaxPollAttempts := 1, PollInterval := 9223372037\<rparr>"

definition example_image_model :: ModelConfig where
  "example_image_model =
     \<lparr>cfg_Type = ModelTypeImage, cfg_VideoType = VideoTypeOther, ModelName = ''IMAGE_MODEL'',
      ModelKey = [], AspectRatio = ''LANDSCAPE'', MinImages = 0, MaxImages = 0\<rparr>"

definition example_t2v_model :: ModelConfig where
  "example_t2v_model =
     \<lparr>cfg_Type = ModelTypeVideo, cfg_VideoType = VideoTypeT2V, ModelName = [],
      ModelKey = ''t2v_key'', AspectRatio = ''LANDSCAPE'', MinImages = 0, MaxImages = 0\<rparr>"

definition example_i2v_model :: ModelConfig where
  "example_i2v_model =
     \<lparr>cfg_Type = ModelTypeVideo, cfg_VideoType = VideoTypeI2V, ModelName = [],
      ModelKey = ''i2v_key'', AspectRatio = ''LANDSCAPE'', MinImages = 1, MaxImages = 2\<rparr>"

definition example_models :: "string \<Rightarrow> ModelConfig option" where
  "example_models name =
     (if name = ''image-model'' then Some example_image_model
      else if name = ''t2v-model'' then Some example_t2v_model
      else if name = ''i2v-model'' then Some example_i2v_model
      else None)"

definition example_request :: "string \<Rightarrow> 8 word list list \<Rightarrow> GenerationRequest" where
  "example_request name images =
     \<lparr>Model = name, Prompt = ''a lighthouse at dusk'', Images = images, Stream = False\<rparr>"

definition example_expired_token :: FlowToken where
  "example_expired_token =
     (newFlowToken ''00000000000000000000000000000001'' ''secret-1'')
       \<lparr>ErrorCount := 2\<rparr>"

definition example_handler_env_auth_fails :: HandlerEnv where
  "example_handler_env_auth_fails = example_handler_env\<lparr>refresh_env := example_env_fail\<rparr>"

definition example_used_token :: FlowToken where
  "example_used_token = example_token\<lparr>ErrorCount := 1\<rparr>"




section \<open>Properties\<close>

subsection \<open>ReadyCount and the counters of Stats\<close>

lemma ReadyCount_loop_filter:
  "ReadyCount_loop ts c =
     c + int (length (filter (\<lambda>t. \<not> Disabled t \<and> ErrorCount t < 3) ts))"
  by (induction ts arbitrary: c) simp_all

lemma Stats_loop_Some:
  "\<forall>t \<in> set ts. 16 \<le> length (ID t) \<Longrightarrow> \<exists>r. Stats_loop ts rdy dis err infos = Some r"
  by (induction ts arbitrary: rdy dis err infos) (simp_all add: token_info_def)

lemma Stats_loop_counts:
  "Stats_loop ts rdy dis err infos = Some (rdy', dis', err', infos') \<Longrightarrow>
     rdy' = rdy + int (length (filter (\<lambda>t. \<not> Disabled t \<and> ErrorCount t < 3) ts)) \<and>
     dis' = dis + int (length (filter Disabled ts)) \<and>
     err' = err + int (length (filter (\<lambda>t. \<not> Disabled t \<and> 3 \<le> ErrorCount t) ts)) \<and>
     length infos' = length infos + length ts"
proof (induction ts arbitrary: rdy dis err infos)
  case Nil
  then show ?case by simp
next
  case (Cons t ts)
  from Cons.prems obtain info where info: "token_info t = Some info"
    by (cases "token_info t") simp_all
  show ?case
  proof (cases "Disabled t")
    case True
    with Cons.prems info
    have "Stats_loop ts rdy (dis + 1) err (infos @ [info]) = Some (rdy', dis', err', infos')"
      by simp
    from Cons.IH [OF this] True show ?thesis by simp
  next
    case enabled: False
    show ?thesis
    proof (cases "3 \<le> ErrorCount t")
      case True
      with enabled Cons.prems info
      have "Stats_loop ts rdy dis (err + 1) (infos @ [info]) = Some (rdy', dis', err', infos')"
        by simp
      from Cons.IH [OF this] True enabled show ?thesis by simp
    next
      case False
      with enabled Cons.prems info
      have "Stats_loop ts (rdy + 1) dis err (infos @ [info]) = Some (rdy', dis', err', infos')"
        by simp
      from Cons.IH [OF this] False enabled show ?thesis by simp
    qed
  qed
qed

lemma three_classes:
  "length (filter (\<lambda>t. \<not> Disabled t \<and> ErrorCount t < 3) ts) + length (filter Disabled ts)
   + length (filter (\<lambda>t. \<not> Disabled t \<and> 3 \<le> ErrorCount t) ts) = length ts"
  by (induction ts) auto

text \<open>
  C10. In a pool whose token IDs have at least 16 bytes (so that the slice \<^verbatim>\<open>t.ID[:16]\<close>
  of Stats does not panic) Stats returns a snapshot whose \<open>ready\<close> counter is the number
  ReadyCount returns; both are the number of tokens with the disabled flag false and
  an error count below 3. The \<open>disabled\<close> counter is the number of tokens with the flag
  set, \<open>errored\<close> the number of tokens with the flag false and an error count of 3 or
  more; the three classes exclude each other and \<open>total\<close>, the size of the map, is the
  sum of the three counters.
\<close>

theorem Stats_ready_is_ReadyCount:
  assumes "\<forall>t \<in> set (map snd (tokens p)). 16 \<le> length (ID t)"
  shows "\<exists>s. Stats p = Some s \<and>
           ready s = ReadyCount p \<and>
           ready s = int (length (filter (\<lambda>t. \<not> Disabled t \<and> ErrorCount t < 3)
                                         (map snd (tokens p)))) \<and>
           disabled s = int (length (filter Disabled (map snd (tokens p)))) \<and>
           errored s = int (length (filter (\<lambda>t. \<not> Disabled t \<and> 3 \<le> ErrorCount t)
                                           (map snd (tokens p)))) \<and>
           total s = ready s + disabled s + errored s \<and>
           total s = Count p \<and>
           length (tokenInfos s) = length (tokens p)"
proof -
  let ?ts = "map snd (tokens p)"
  from Stats_loop_Some [OF assms] obtain rdy dis err infos
    where run: "Stats_loop ?ts 0 0 0 [] = Some (rdy, dis, err, infos)"
    by (metis prod_cases4)
  note counts = Stats_loop_counts [OF run]
  have s: "Stats p = Some \<lparr>total = int (length (tokens p)), ready = rdy, disabled = dis,
                errored = err, tokenInfos = infos\<rparr>"
    by (simp add: Stats_def run)
  from three_classes [of ?ts]
  have "int (length (tokens p)) = rdy + dis + err"
    using counts by simp
  then show ?thesis
    using s counts by (simp add: ReadyCount_def ReadyCount_loop_filter Count_def)
qed

theorem Stats_ready_is_ReadyCount_witness:
  "list_all (\<lambda>t. 16 \<le> length (ID t)) (map snd (tokens example_pool)) \<and>
   (\<exists>s. Stats example_pool = Some s \<and> ready s = 1 \<and> ReadyCount example_pool = 1 \<and>
        disabled s = 1 \<and> errored s = 1 \<and> total s = 3)"
proof -
  have h: "\<forall>t \<in> set (map snd (tokens example_pool)). 16 \<le> length (ID t)"
    by (simp add: example_pool_def newFlowToken_def)
  from Stats_ready_is_ReadyCount [OF h] obtain s where
    "Stats example_pool = Some s" "ready s = ReadyCount example_pool"
    "ready s = int (length (filter (\<lambda>t. \<not> Disabled t \<and> ErrorCount t < 3)
                                   (map snd (tokens example_pool))))"
    "disabled s = int (length (filter Disabled (map snd (tokens example_pool))))"
    "errored s = int (length (filter (\<lambda>t. \<not> Disabled t \<and> 3 \<le> ErrorCount t)
                                     (map snd (tokens example_pool))))"
    "total s = ready s + disabled s + errored s"
    by blast
  then have "Stats example_pool = Some s \<and> ready s = 1 \<and> ReadyCount example_pool = 1 \<and>
        disabled s = 1 \<and> errored s = 1 \<and> total s = 3"
    by (simp add: example_pool_def newFlowToken_def)
  with h show ?thesis by (auto simp: list_all_iff)
qed

subsection \<open>extractSessionToken on a bare secret\<close>

lemma space_runes_no_eq: "w \<in> set space_runes \<Longrightarrow> CHR ''='' \<notin> set w"
  by (auto simp: space_runes_def)

lemma asciiSpace_not_eq: "asciiSpace c \<Longrightarrow> c \<noteq> CHR ''=''"
  by (auto simp: asciiSpace_def)

text \<open>What TrimSpace removes at either end holds no \<^verbatim>\<open>=\<close>.\<close>

lemma leading_space_no_eq: "CHR ''='' \<notin> set (take (leading_space s) s)"
proof (cases s)
  case Nil
  then show ?thesis by simp
next
  case (Cons c cs)
  show ?thesis
  proof (cases "asciiSpace c")
    case True
    then show ?thesis
      using Cons asciiSpace_not_eq [of c] by (auto simp: leading_space_def)
  next
    case False
    show ?thesis
    proof (cases "find (\<lambda>w. prefix w s) space_runes")
      case None
      then show ?thesis using Cons False by (simp add: leading_space_def)
    next
      case (Some w)
      then have w: "w \<in> set space_runes" "prefix w s"
        by (auto simp: find_Some_iff)
      then have "take (length w) s = w"
        by (auto simp: prefix_def)
      then show ?thesis
        using Cons False Some space_runes_no_eq [OF w(1)] by (simp add: leading_space_def)
    qed
  qed
qed

lemma trailing_space_no_eq: "CHR ''='' \<notin> set (drop (length s - trailing_space s) s)"
proof (cases "rev s")
  case Nil
  then show ?thesis by simp
next
  case (Cons c cs)
  then have s: "s = rev cs @ [c]" by simp
  show ?thesis
  proof (cases "asciiSpace c")
    case True
    then show ?thesis
      using Cons s asciiSpace_not_eq [of c] by (auto simp: trailing_space_def)
  next
    case False
    show ?thesis
    proof (cases "find (\<lambda>w. suffix w s) space_runes")
      case None
      then show ?thesis using Cons False by (simp add: trailing_space_def)
    next
      case (Some w)
      then have w: "w \<in> set space_runes" "suffix w s"
        by (auto simp: find_Some_iff)
      then have "drop (length s - length w) s = w"
        by (auto simp: suffix_def)
      then show ?thesis
        using Cons False Some space_runes_no_eq [OF w(1)] by (simp add: trailing_space_def)
    qed
  qed
qed

lemma TrimLeftSpace_keeps_eq:
  "CHR ''='' \<in> set s \<Longrightarrow> CHR ''='' \<in> set (TrimLeftSpace s)"
proof (induction s rule: TrimLeftSpace.induct)
  case (1 s)
  show ?case
  proof (cases "leading_space s = 0")
    case True
    with "1.prems" show ?thesis by (simp add: TrimLeftSpace.simps [of s])
  next
    case False
    have "set s = set (take (leading_space s) s) \<union> set (drop (leading_space s) s)"
      by (metis append_take_drop_id set_append)
    with "1.prems" leading_space_no_eq [of s]
    have "CHR ''='' \<in> set (drop (leading_space s) s)" by blast
    from "1.IH" [OF False this] False show ?thesis
      by (simp add: TrimLeftSpace.simps [of s])
  qed
qed

lemma TrimRightSpace_keeps_eq:
  "CHR ''='' \<in> set s \<Longrightarrow> CHR ''='' \<in> set (TrimRightSpace s)"
proof (induction s rule: TrimRightSpace.induct)
  case (1 s)
  show ?case
  proof (cases "trailing_space s = 0")
    case True
    with "1.prems" show ?thesis by (simp add: TrimRightSpace.simps [of s])
  next
    case False
    have "set s = set (take (length s - trailing_space s) s)
                \<union> set (drop (length s - trailing_space s) s)"
      by (metis append_take_drop_id set_append)
    with "1.prems" trailing_space_no_eq [of s]
    have "CHR ''='' \<in> set (take (length s - trailing_space s) s)" by blast
    from "1.IH" [OF False this] False show ?thesis
      by (simp add: TrimRightSpace.simps [of s])
  qed
qed

lemma TrimSpace_keeps_eq: "CHR ''='' \<in> set s \<Longrightarrow> CHR ''='' \<in> set (TrimSpace s)"
  by (simp add: TrimSpace_def TrimLeftSpace_keeps_eq TrimRightSpace_keeps_eq)

lemma TrimSpace_id: "leading_space s = 0 \<Longrightarrow> trailing_space s = 0 \<Longrightarrow> TrimSpace s = s"
  by (simp add: TrimSpace_def TrimLeftSpace.simps [of s] TrimRightSpace.simps [of s])

text \<open>Neither pattern matches a string without \<^verbatim>\<open>=\<close>, the last byte of their literal.\<close>

lemma match_here_needs_eq:
  assumes "CHR ''='' \<notin> set s"
  shows "match_here cls s = None"
proof -
  have "CHR ''='' \<in> set session_token_key" by (simp add: session_token_key_def)
  then have "\<not> prefix session_token_key s"
    using assms by (auto simp: prefix_def)
  then show ?thesis by (simp add: match_here_def)
qed

lemma FindStringSubmatch_needs_eq:
  "CHR ''='' \<notin> set s \<Longrightarrow> FindStringSubmatch cls s = None"
  by (induction s) (simp_all add: match_here_needs_eq)

lemma TrimSpace_hundred_a: "TrimSpace (replicate 100 CHR ''a'') = replicate 100 CHR ''a''"
proof (rule TrimSpace_id)
  show "leading_space (replicate 100 CHR ''a'') = 0" by code_simp
  show "trailing_space (replicate 100 CHR ''a'') = 0" by code_simp
qed

lemma extractSessionToken_hundred_a: "extractSessionToken (replicate 100 CHR ''a'') = []"
  by code_simp

text \<open>
  C8, as stated, fails at the boundary: the test of extractSessionToken is
  \<^verbatim>\<open>len(cookie) > 100\<close>. One hundred letters \<^verbatim>\<open>a\<close> are their own trimmed form, hold no
  \<^verbatim>\<open>=\<close> and have length 100, yet extractSessionToken returns the empty string and
  AddFromCookie fails with the error that no session token was found.
\<close>

theorem extractSessionToken_length_100_counterexample:
  "CHR ''='' \<notin> set (TrimSpace (replicate 100 CHR ''a'')) \<and>
   length (TrimSpace (replicate 100 CHR ''a'')) = 100 \<and>
   extractSessionToken (replicate 100 CHR ''a'') = [] \<and>
   fst (snd (snd (AddFromCookie example_md5 (replicate 100 CHR ''a'')
                    (NewTokenPool ''data'' None)))) = Some NoSessionToken"
  by (simp add: TrimSpace_hundred_a extractSessionToken_hundred_a AddFromCookie_def)

text \<open>
  C8, amended: for every input that, after trimming white space, contains no \<^verbatim>\<open>=\<close> and
  has more than 100 bytes, extractSessionToken returns the trimmed input, which is not
  empty, and AddFromCookie on it does not fail with the error that no session token was
  found.
\<close>

theorem extractSessionToken_bare_secret:
  assumes "CHR ''='' \<notin> set (TrimSpace s)" and "100 < length (TrimSpace s)"
  shows "extractSessionToken s = TrimSpace s \<and> extractSessionToken s \<noteq> [] \<and>
         fst (snd (snd (AddFromCookie md5_Sum s p))) \<noteq> Some NoSessionToken"
proof -
  from assms(1) have "CHR ''='' \<notin> set s" using TrimSpace_keeps_eq by blast
  then have e: "extractSessionToken s = TrimSpace s"
    using assms by (simp add: extractSessionToken_def FindStringSubmatch_needs_eq)
  moreover from assms(2) have ne: "TrimSpace s \<noteq> []" by auto
  ultimately show ?thesis
    by (simp add: AddFromCookie_def Let_def)
qed

theorem extractSessionToken_bare_secret_witness:
  "CHR ''='' \<notin> set (TrimSpace (CHR '' '' # replicate 101 CHR ''a'' @ [CHR 0x0A])) \<and>
   100 < length (TrimSpace (CHR '' '' # replicate 101 CHR ''a'' @ [CHR 0x0A])) \<and>
   extractSessionToken (CHR '' '' # replicate 101 CHR ''a'' @ [CHR 0x0A])
     = replicate 101 CHR ''a'' \<and>
   fst (snd (snd (AddFromCookie example_md5 (CHR '' '' # replicate 101 CHR ''a'' @ [CHR 0x0A])
                    (NewTokenPool ''data'' None)))) \<noteq> Some NoSessionToken"
proof -
  have t: "TrimSpace (CHR '' '' # replicate 101 CHR ''a'' @ [CHR 0x0A])
             = replicate 101 CHR ''a''"
    by code_simp
  have h1: "CHR ''='' \<notin> set (TrimSpace (CHR '' '' # replicate 101 CHR ''a'' @ [CHR 0x0A]))"
    by (simp add: t)
  have h2: "100 < length (TrimSpace (CHR '' '' # replicate 101 CHR ''a'' @ [CHR 0x0A]))"
    by (simp add: t)
  from extractSessionToken_bare_secret
         [OF h1 h2, of example_md5 "NewTokenPool ''data'' None"] h1 h2
  show ?thesis by (simp add: t)
qed

subsection \<open>The refresh worker and the ready count\<close>

lemma refreshAllAT_body_fail:
  assumes "needRefresh env u" and "STToAT_r env (ST u) = Inl err"
  shows "refreshAllAT_body True env u =
           u\<lparr>ErrorCount := ErrorCount u + 1, Disabled := (Disabled u \<or> 3 \<le> ErrorCount u + 1)\<rparr>"
  using assms by (simp add: refreshAllAT_body_def Let_def)

lemma refreshAllAT_body_success:
  assumes "needRefresh env u" and "STToAT_r env (ST u) = Inr resp"
  shows "refreshAllAT_body True env u =
           (store_access env resp u)\<lparr>ErrorCount := 0, Disabled := False\<rparr>"
  using assms by (simp add: refreshAllAT_body_def)

lemma refreshAllAT_body_skip: "\<not> needRefresh env u \<Longrightarrow> refreshAllAT_body c env u = u"
  by (simp add: refreshAllAT_body_def)

lemma needRefresh_failed:
  "needRefresh env (u\<lparr>ErrorCount := e, Disabled := d\<rparr>) = needRefresh env u"
  by (simp add: needRefresh_def)

lemma refreshAllAT_loop_keys: "map fst (refreshAllAT_loop c env l) = map fst l"
  by (induction l) auto

lemma refreshAllAT_loop_map_of:
  "map_of (refreshAllAT_loop c env l) k = map_option (refreshAllAT_body c env) (map_of l k)"
  by (induction l) auto

lemma refreshAllAT_loop_others:
  "\<forall>(k', t') \<in> set l. k' \<noteq> k \<longrightarrow> \<not> needRefresh env t' \<Longrightarrow>
   AList.delete k (refreshAllAT_loop c env l) = AList.delete k l"
  by (induction l) (auto simp: refreshAllAT_body_skip)

lemma ReadyCount_loop_Cons:
  "ReadyCount_loop (t # ts) 0 =
     (if \<not> Disabled t \<and> ErrorCount t < 3 then 1 else 0) + ReadyCount_loop ts 0"
  by (simp add: ReadyCount_loop_filter)

lemma ReadyCount_loop_split:
  "distinct (map fst l) \<Longrightarrow> map_of l k = Some t \<Longrightarrow>
   ReadyCount_loop (map snd l) 0 =
     (if \<not> Disabled t \<and> ErrorCount t < 3 then 1 else 0)
     + ReadyCount_loop (map snd (AList.delete k l)) 0"
proof (induction l)
  case Nil
  then show ?case by simp
next
  case (Cons a l)
  obtain k' t' where a: "a = (k', t')" by (cases a)
  have unfold: "ReadyCount_loop (map snd (a # l)) 0 =
      (if \<not> Disabled t' \<and> ErrorCount t' < 3 then 1 else 0) + ReadyCount_loop (map snd l) 0"
    using a ReadyCount_loop_Cons [of t' "map snd l"] by simp
  show ?case
  proof (cases "k' = k")
    case True
    with Cons.prems a have "t' = t" by simp
    moreover from Cons.prems a True have "k \<notin> fst ` set l" by simp
    then have "AList.delete k l = l" by (rule AList.delete_id)
    then have "AList.delete k (a # l) = l" using a True by simp
    ultimately show ?thesis using unfold by simp
  next
    case False
    with Cons.prems a have "distinct (map fst l)" "map_of l k = Some t" by simp_all
    note IH = Cons.IH [OF this]
    have "AList.delete k (a # l) = a # AList.delete k l" using a False by simp
    then have "ReadyCount_loop (map snd (AList.delete k (a # l))) 0 =
      (if \<not> Disabled t' \<and> ErrorCount t' < 3 then 1 else 0)
      + ReadyCount_loop (map snd (AList.delete k l)) 0"
      using a ReadyCount_loop_Cons [of t' "map snd (AList.delete k l)"] by simp
    with unfold IH show ?thesis by simp
  qed
qed

lemma ReadyCount_split:
  assumes "distinct (map fst (tokens p))" and "map_of (tokens p) k = Some t"
  shows "ReadyCount p = (if \<not> Disabled t \<and> ErrorCount t < 3 then 1 else 0)
           + ReadyCount_loop (map snd (AList.delete k (tokens p))) 0"
  using ReadyCount_loop_split [OF assms] by (simp add: ReadyCount_def)

text \<open>One round of refreshAllAT, seen from the token stored under \<open>k\<close>.\<close>

lemma refreshAllAT_round:
  assumes d: "distinct (map fst (tokens p))"
    and k: "map_of (tokens p) k = Some u"
    and c: "client p \<noteq> None"
  shows "distinct (map fst (tokens (refreshAllAT env p)))"
    and "map_of (tokens (refreshAllAT env p)) k = Some (refreshAllAT_body True env u)"
    and "client (refreshAllAT env p) \<noteq> None"
proof -
  show "distinct (map fst (tokens (refreshAllAT env p)))"
    using d by (simp add: refreshAllAT_def refreshAllAT_loop_keys)
  show "map_of (tokens (refreshAllAT env p)) k = Some (refreshAllAT_body True env u)"
    using k c by (simp add: refreshAllAT_def refreshAllAT_loop_map_of)
  show "client (refreshAllAT env p) \<noteq> None"
    using c by (simp add: refreshAllAT_def)
qed

lemma refreshAllAT_round_others:
  assumes "\<forall>(k', t') \<in> set (AList.delete k (tokens p)). \<not> needRefresh env t'"
  shows "AList.delete k (tokens (refreshAllAT env p)) = AList.delete k (tokens p)"
proof -
  have "\<forall>(k', t') \<in> set (tokens p). k' \<noteq> k \<longrightarrow> \<not> needRefresh env t'"
    using assms by (auto simp: AList.delete_eq)
  then show ?thesis
    by (simp add: refreshAllAT_def refreshAllAT_loop_others)
qed

lemma ReadyCount_without:
  assumes "distinct (map fst (tokens p))" and "map_of (tokens p) k = Some t"
  shows "ReadyCount p = (if \<not> Disabled t \<and> ErrorCount t < 3 then 1 else 0)
           + ReadyCount (without p k)"
  using ReadyCount_split [OF assms] by (simp add: ReadyCount_def without_def)

text \<open>
  C2. A token \<open>t\<close> of the pool, stored under \<open>k\<close>, goes through four rounds of refreshAllAT.
  In the first three the token is due and \<^verbatim>\<open>STToAT\<close> fails, in the fourth it succeeds. Each
  failure adds one to the error count, and the disabled flag is set as soon as the count
  is 3 or more: after the third failure the token is disabled, and ReadyCount of the
  pool is what it is without the token. The success sets the count to 0 and clears the
  flag, and ReadyCount is one more than without the token. A token that starts enabled
  with count 0 is counted before the first failure and still after one and after two
  failures. When no other token of the pool is due in these rounds, the numbers are:
  ReadyCount is lower by one after the third failure (if the token was counted before),
  and one higher again after the success.
\<close>

theorem refresh_failures_disable_success_enables:
  fixes p :: TokenPool and e1 e2 e3 e4 :: RefreshEnv
  defines "p1 \<equiv> refreshAllAT e1 p"
    and "p2 \<equiv> refreshAllAT e2 (refreshAllAT e1 p)"
    and "p3 \<equiv> refreshAllAT e3 (refreshAllAT e2 (refreshAllAT e1 p))"
    and "p4 \<equiv> refreshAllAT e4 (refreshAllAT e3 (refreshAllAT e2 (refreshAllAT e1 p)))"
  assumes d: "distinct (map fst (tokens p))"
    and k: "map_of (tokens p) k = Some t"
    and c: "client p \<noteq> None"
    and nonneg: "0 \<le> ErrorCount t"
    and fails: "\<forall>env \<in> set [e1, e2, e3]. needRefresh env t \<and> isl (STToAT_r env (ST t))"
    and succeeds: "needRefresh e4 t \<and> \<not> isl (STToAT_r e4 (ST t))"
  shows "\<exists>t1 t2 t3 t4.
           map_of (tokens p1) k = Some t1 \<and> map_of (tokens p2) k = Some t2 \<and>
           map_of (tokens p3) k = Some t3 \<and> map_of (tokens p4) k = Some t4 \<and>
           ErrorCount t1 = ErrorCount t + 1 \<and> ErrorCount t2 = ErrorCount t + 2 \<and>
           ErrorCount t3 = ErrorCount t + 3 \<and>
           (Disabled t1 \<longleftrightarrow> Disabled t \<or> 3 \<le> ErrorCount t + 1) \<and>
           (Disabled t2 \<longleftrightarrow> Disabled t \<or> 3 \<le> ErrorCount t + 2) \<and>
           Disabled t3 \<and>
           ErrorCount t4 = 0 \<and> \<not> Disabled t4 \<and>
           ReadyCount p3 = ReadyCount (without p3 k) \<and>
           ReadyCount p4 = ReadyCount (without p4 k) + 1 \<and>
           (ErrorCount t = 0 \<and> \<not> Disabled t \<longrightarrow>
              ReadyCount p = ReadyCount (without p k) + 1 \<and>
              ReadyCount p1 = ReadyCount (without p1 k) + 1 \<and>
              ReadyCount p2 = ReadyCount (without p2 k) + 1) \<and>
           ((\<forall>env \<in> set [e1, e2, e3, e4].
               \<forall>(k', t') \<in> set (tokens p). k' \<noteq> k \<longrightarrow> \<not> needRefresh env t') \<longrightarrow>
              ReadyCount p3
                = ReadyCount p - (if \<not> Disabled t \<and> ErrorCount t < 3 then 1 else 0) \<and>
              ReadyCount p4 = ReadyCount p3 + 1 \<and>
              (ErrorCount t = 0 \<and> \<not> Disabled t \<longrightarrow>
                 ReadyCount p1 = ReadyCount p \<and> ReadyCount p2 = ReadyCount p \<and>
                 ReadyCount p3 = ReadyCount p - 1 \<and> ReadyCount p4 = ReadyCount p))"
proof -
  obtain err1 err2 err3
    where err: "STToAT_r e1 (ST t) = Inl err1" "STToAT_r e2 (ST t) = Inl err2"
      "STToAT_r e3 (ST t) = Inl err3"
    using fails by (auto simp: isl_def)
  obtain resp where resp: "STToAT_r e4 (ST t) = Inr resp"
    using succeeds by (cases "STToAT_r e4 (ST t)") auto
  have need: "needRefresh e1 t" "needRefresh e2 t" "needRefresh e3 t" "needRefresh e4 t"
    using fails succeeds by simp_all
  define t1 where
    "t1 = t\<lparr>ErrorCount := ErrorCount t + 1, Disabled := (Disabled t \<or> 3 \<le> ErrorCount t + 1)\<rparr>"
  define t2 where
    "t2 = t1\<lparr>ErrorCount := ErrorCount t1 + 1, Disabled := (Disabled t1 \<or> 3 \<le> ErrorCount t1 + 1)\<rparr>"
  define t3 where
    "t3 = t2\<lparr>ErrorCount := ErrorCount t2 + 1, Disabled := (Disabled t2 \<or> 3 \<le> ErrorCount t2 + 1)\<rparr>"
  define t4 where "t4 = (store_access e4 resp t3)\<lparr>ErrorCount := 0, Disabled := False\<rparr>"
  have same: "ST t1 = ST t" "ST t2 = ST t" "ST t3 = ST t"
    by (simp_all add: t1_def t2_def t3_def)
  have need': "needRefresh e2 t1" "needRefresh e3 t2" "needRefresh e4 t3"
    using need by (simp_all add: t1_def t2_def t3_def needRefresh_failed)
  have b1: "refreshAllAT_body True e1 t = t1"
    unfolding t1_def by (rule refreshAllAT_body_fail [OF need(1) err(1)])
  have b2: "refreshAllAT_body True e2 t1 = t2"
    unfolding t2_def using need'(1) err(2) same(1) by (intro refreshAllAT_body_fail) simp_all
  have b3: "refreshAllAT_body True e3 t2 = t3"
    unfolding t3_def using need'(2) err(3) same(2) by (intro refreshAllAT_body_fail) simp_all
  have b4: "refreshAllAT_body True e4 t3 = t4"
    unfolding t4_def using need'(3) resp same(3) by (intro refreshAllAT_body_success) simp_all
  have p2: "refreshAllAT e2 p1 = p2" by (simp add: p1_def p2_def)
  have p3: "refreshAllAT e3 p2 = p3" by (simp add: p2_def p3_def)
  have p4: "refreshAllAT e4 p3 = p4" by (simp add: p3_def p4_def)
  note r1 = refreshAllAT_round [OF d k c, of e1, folded p1_def, unfolded b1]
  note r2 = refreshAllAT_round [OF r1, of e2, unfolded b2 p2]
  note r3 = refreshAllAT_round [OF r2, of e3, unfolded b3 p3]
  note r4 = refreshAllAT_round [OF r3, of e4, unfolded b4 p4]
  note c0 = ReadyCount_without [OF d k]
  note c1 = ReadyCount_without [OF r1(1,2)]
  note c2 = ReadyCount_without [OF r2(1,2)]
  note c3 = ReadyCount_without [OF r3(1,2)]
  note c4 = ReadyCount_without [OF r4(1,2)]
  have v1: "ErrorCount t1 = ErrorCount t + 1" "Disabled t1 \<longleftrightarrow> Disabled t \<or> 3 \<le> ErrorCount t + 1"
    by (simp_all add: t1_def)
  have v2: "ErrorCount t2 = ErrorCount t + 2" "Disabled t2 \<longleftrightarrow> Disabled t \<or> 3 \<le> ErrorCount t + 2"
    by (auto simp: t2_def v1)
  have v3: "ErrorCount t3 = ErrorCount t + 3" "Disabled t3"
    using nonneg by (auto simp: t3_def v2)
  have v4: "ErrorCount t4 = 0" "\<not> Disabled t4"
    by (simp_all add: t4_def)
  have own: "ReadyCount p3 = ReadyCount (without p3 k)"
    "ReadyCount p4 = ReadyCount (without p4 k) + 1"
    "ErrorCount t = 0 \<and> \<not> Disabled t \<longrightarrow>
              ReadyCount p = ReadyCount (without p k) + 1 \<and>
              ReadyCount p1 = ReadyCount (without p1 k) + 1 \<and>
              ReadyCount p2 = ReadyCount (without p2 k) + 1"
    using c0 c1 c2 c3 c4 v1 v2 v3 v4 by auto
  have quiet_counts: "ReadyCount p3
                = ReadyCount p - (if \<not> Disabled t \<and> ErrorCount t < 3 then 1 else 0) \<and>
              ReadyCount p4 = ReadyCount p3 + 1 \<and>
              (ErrorCount t = 0 \<and> \<not> Disabled t \<longrightarrow>
                 ReadyCount p1 = ReadyCount p \<and> ReadyCount p2 = ReadyCount p \<and>
                 ReadyCount p3 = ReadyCount p - 1 \<and> ReadyCount p4 = ReadyCount p)"
    if others: "\<forall>env \<in> set [e1, e2, e3, e4].
               \<forall>(k', t') \<in> set (tokens p). k' \<noteq> k \<longrightarrow> \<not> needRefresh env t'"
  proof -
    define rest where "rest = AList.delete k (tokens p)"
    have quiet: "\<forall>(k', t') \<in> set rest. \<not> needRefresh env t'"
      if "env \<in> set [e1, e2, e3, e4]" for env
      using others that unfolding rest_def by (auto simp: AList.delete_eq)
    have s1: "AList.delete k (tokens p1) = rest"
      unfolding p1_def using quiet [of e1]
      by (simp add: refreshAllAT_round_others rest_def)
    have s2: "AList.delete k (tokens p2) = rest"
      unfolding p2 [symmetric] using quiet [of e2] s1
      by (simp add: refreshAllAT_round_others)
    have s3: "AList.delete k (tokens p3) = rest"
      unfolding p3 [symmetric] using quiet [of e3] s2
      by (simp add: refreshAllAT_round_others)
    have s4: "AList.delete k (tokens p4) = rest"
      unfolding p4 [symmetric] using quiet [of e4] s3
      by (simp add: refreshAllAT_round_others)
    have w: "ReadyCount (without p1 k) = ReadyCount (without p k)"
      "ReadyCount (without p2 k) = ReadyCount (without p k)"
      "ReadyCount (without p3 k) = ReadyCount (without p k)"
      "ReadyCount (without p4 k) = ReadyCount (without p k)"
      using s1 s2 s3 s4 by (simp_all add: without_def ReadyCount_def rest_def)
    show ?thesis
      using c0 c1 c2 c3 c4 v1 v2 v3 v4 w by auto
  qed
  have m: "map_of (tokens p1) k = Some t1" "map_of (tokens p2) k = Some t2"
    "map_of (tokens p3) k = Some t3" "map_of (tokens p4) k = Some t4"
    using r1(2) r2(2) r3(2) r4(2) by simp_all
  show ?thesis
    using m v1 v2 v3 v4 own quiet_counts by blast
qed

theorem refresh_failures_disable_success_enables_witness:
  "distinct (map fst (tokens example_refresh_pool)) \<and>
   map_of (tokens example_refresh_pool) ''00000000000000000000000000000001''
     = Some (newFlowToken ''00000000000000000000000000000001'' ''secret-1'') \<and>
   ReadyCount example_refresh_pool = 2 \<and>
   ReadyCount (refreshAllAT example_env_fail example_refresh_pool) = 2 \<and>
   ReadyCount (refreshAllAT example_env_fail
                (refreshAllAT example_env_fail example_refresh_pool)) = 2 \<and>
   ReadyCount (refreshAllAT example_env_fail (refreshAllAT example_env_fail
                (refreshAllAT example_env_fail example_refresh_pool))) = 1 \<and>
   ReadyCount (refreshAllAT example_env_ok (refreshAllAT example_env_fail
                (refreshAllAT example_env_fail
                  (refreshAllAT example_env_fail example_refresh_pool)))) = 2"
proof -
  let ?t = "newFlowToken ''00000000000000000000000000000001'' ''secret-1''"
  have d: "distinct (map fst (tokens example_refresh_pool))"
    by (simp add: example_refresh_pool_def)
  have k: "map_of (tokens example_refresh_pool) ''00000000000000000000000000000001'' = Some ?t"
    by (simp add: example_refresh_pool_def)
  have c: "client example_refresh_pool \<noteq> None"
    by (simp add: example_refresh_pool_def)
  have n: "0 \<le> ErrorCount ?t" "ErrorCount ?t = 0 \<and> \<not> Disabled ?t"
    by (simp_all add: newFlowToken_def)
  have f: "\<forall>env \<in> set [example_env_fail, example_env_fail, example_env_fail].
             needRefresh env ?t \<and> isl (STToAT_r env (ST ?t))"
    by (simp add: needRefresh_def newFlowToken_def example_env_fail_def)
  have s: "needRefresh example_env_ok ?t \<and> \<not> isl (STToAT_r example_env_ok (ST ?t))"
    by (simp add: needRefresh_def newFlowToken_def example_env_ok_def)
  have o: "\<forall>env \<in> set [example_env_fail, example_env_fail, example_env_fail, example_env_ok].
             \<forall>(k', t') \<in> set (tokens example_refresh_pool).
               k' \<noteq> ''00000000000000000000000000000001'' \<longrightarrow> \<not> needRefresh env t'"
    by (simp add: needRefresh_def newFlowToken_def example_env_ok_def example_env_fail_def
        example_refresh_pool_def Minute_def)
  have r: "ReadyCount example_refresh_pool = 2"
    by (simp add: ReadyCount_def example_refresh_pool_def newFlowToken_def)
  from refresh_failures_disable_success_enables [OF d k c n(1) f s] o n(2) r d k
  show ?thesis by auto
qed

subsection \<open>LoadFromDir registers each secret once\<close>

lemma generateTokenID_length: "length (generateTokenID md5_Sum st) = 32"
  by (simp add: generateTokenID_def hex_EncodeToString_def digest_bytes_def length_concat o_def sum_list_triv)

lemma update_keys_absent:
  "k \<notin> fst ` set l \<Longrightarrow> map fst (AList.update k v l) = map fst l @ [k]"
  by (induction l) auto

lemma update_absent: "k \<notin> fst ` set l \<Longrightarrow> AList.update k v l = l @ [(k, v)]"
  by (induction l) auto

lemma LoadFromDir_loop_step:
  "LoadFromDir_loop md5_Sum (f # files) p loaded =
     (if loadable f \<and> entry_tokenID md5_Sum f \<notin> fst ` set (tokens p)
      then LoadFromDir_loop md5_Sum files
             (p\<lparr>tokens := tokens p @ [(entry_tokenID md5_Sum f,
                    newFlowToken (entry_tokenID md5_Sum f)
                      (extractSessionToken (projr (entry_ReadFile f))))],
                client := AddToken (client p)
                    (newFlowToken (entry_tokenID md5_Sum f)
                      (extractSessionToken (projr (entry_ReadFile f))))\<rparr>)
             (loaded + 1)
      else LoadFromDir_loop md5_Sum files p loaded)"
  by (cases "entry_ReadFile f")
     (auto simp: loadable_def entry_tokenID_def Let_def map_of_eq_None_iff update_absent)

lemma LoadFromDir_loop_covers:
  "LoadFromDir_loop md5_Sum files p loaded = (p', loaded') \<Longrightarrow>
     fst ` set (tokens p) \<subseteq> fst ` set (tokens p') \<and>
     (\<forall>f \<in> set files. loadable f \<longrightarrow> entry_tokenID md5_Sum f \<in> fst ` set (tokens p'))"
proof (induction files arbitrary: p loaded)
  case Nil
  then show ?case by simp
next
  case (Cons f files)
  show ?case
  proof (cases "loadable f \<and> entry_tokenID md5_Sum f \<notin> fst ` set (tokens p)")
    case True
    let ?q = "p\<lparr>tokens := tokens p @ [(entry_tokenID md5_Sum f,
                    newFlowToken (entry_tokenID md5_Sum f)
                      (extractSessionToken (projr (entry_ReadFile f))))],
                client := AddToken (client p)
                    (newFlowToken (entry_tokenID md5_Sum f)
                      (extractSessionToken (projr (entry_ReadFile f))))\<rparr>"
    from Cons.prems True have "LoadFromDir_loop md5_Sum files ?q (loaded + 1) = (p', loaded')"
      by (simp add: LoadFromDir_loop_step del: LoadFromDir_loop.simps)
    from Cons.IH [OF this] show ?thesis by auto
  next
    case False
    with Cons.prems have "LoadFromDir_loop md5_Sum files p loaded = (p', loaded')"
      by (simp add: LoadFromDir_loop_step del: LoadFromDir_loop.simps)
    from Cons.IH [OF this] False show ?thesis by auto
  qed
qed

lemma LoadFromDir_loop_nothing_new:
  "\<forall>f \<in> set files. loadable f \<longrightarrow> entry_tokenID md5_Sum f \<in> fst ` set (tokens p) \<Longrightarrow>
   LoadFromDir_loop md5_Sum files p loaded = (p, loaded)"
proof (induction files)
  case Nil
  then show ?case by simp
next
  case (Cons f files)
  then have "\<not> (loadable f \<and> entry_tokenID md5_Sum f \<notin> fst ` set (tokens p))" by simp
  then have "LoadFromDir_loop md5_Sum (f # files) p loaded = LoadFromDir_loop md5_Sum files p loaded"
    by (auto simp add: LoadFromDir_loop_step simp del: LoadFromDir_loop.simps)
  with Cons show ?case by simp
qed

lemma LoadFromDir_loop_wf:
  "LoadFromDir_loop md5_Sum files p loaded = (p', loaded') \<Longrightarrow> pool_wf md5_Sum p \<Longrightarrow>
     pool_wf md5_Sum p' \<and> int (length (tokens p')) = int (length (tokens p)) + (loaded' - loaded)"
proof (induction files arbitrary: p loaded)
  case Nil
  then show ?case by simp
next
  case (Cons f files)
  show ?case
  proof (cases "loadable f \<and> entry_tokenID md5_Sum f \<notin> fst ` set (tokens p)")
    case True
    let ?q = "p\<lparr>tokens := tokens p @ [(entry_tokenID md5_Sum f,
                    newFlowToken (entry_tokenID md5_Sum f)
                      (extractSessionToken (projr (entry_ReadFile f))))],
                client := AddToken (client p)
                    (newFlowToken (entry_tokenID md5_Sum f)
                      (extractSessionToken (projr (entry_ReadFile f))))\<rparr>"
    from Cons.prems True have run: "LoadFromDir_loop md5_Sum files ?q (loaded + 1) = (p', loaded')"
      by (simp add: LoadFromDir_loop_step del: LoadFromDir_loop.simps)
    from True obtain content where "entry_ReadFile f = Inr content"
      by (cases "entry_ReadFile f") (auto simp: loadable_def)
    with Cons.prems(2) True have "pool_wf md5_Sum ?q"
      by (auto simp: pool_wf_def newFlowToken_def entry_tokenID_def)
    from Cons.IH [OF run this] show ?thesis by simp
  next
    case False
    with Cons.prems have "LoadFromDir_loop md5_Sum files p loaded = (p', loaded')"
      by (simp add: LoadFromDir_loop_step del: LoadFromDir_loop.simps)
    from Cons.IH [OF this Cons.prems(2)] show ?thesis by simp
  qed
qed

lemma one_token_per_secret:
  assumes "distinct (map fst l)"
    and "list_all (\<lambda>(k, t). ID t = k \<and> k = generateTokenID md5_Sum (ST t)) l"
  shows "length (filter (\<lambda>(k, t). ST t = s) l) \<le> 1"
  using assms
proof (induction l)
  case Nil
  then show ?case by simp
next
  case (Cons a l)
  obtain k t where a: "a = (k, t)" by (cases a)
  from Cons.prems a have IH: "length (filter (\<lambda>(k, t). ST t = s) l) \<le> 1"
    using Cons.IH by simp
  show ?case
  proof (cases "ST t = s")
    case True
    with Cons.prems a have key: "k = generateTokenID md5_Sum s" "k \<notin> fst ` set l" by simp_all
    have "filter (\<lambda>(k, t). ST t = s) l = []"
    proof (rule ccontr)
      assume "filter (\<lambda>(k, t). ST t = s) l \<noteq> []"
      then obtain k' t' where in_l: "(k', t') \<in> set l" and "ST t' = s"
        by (auto simp: filter_empty_conv)
      with Cons.prems(2) have "k' = generateTokenID md5_Sum s"
        by (auto simp: list_all_iff)
      with key in_l show False by force
    qed
    with a True show ?thesis by simp
  next
    case False
    with a IH show ?thesis by simp
  qed
qed

lemma pool_wf_NewTokenPool: "pool_wf md5_Sum (NewTokenPool dir cl)"
  by (simp add: pool_wf_def NewTokenPool_def)

lemma pool_wf_one_per_secret:
  "pool_wf md5_Sum p \<Longrightarrow> length (filter (\<lambda>(k, t). ST t = s) (tokens p)) \<le> 1"
  unfolding pool_wf_def by (blast intro: one_token_per_secret)

lemma example_cookies:
  "extractSessionToken ''__Secure-next-auth.session-token=abc; theme=dark'' = ''abc''"
  "extractSessionToken ''theme=light; __Secure-next-auth.session-token=abc'' = ''abc''"
  "extractSessionToken ''one cookie per file'' = []"
  by code_simp+

text \<open>
  C3. The identity of a credential is \<open>generateTokenID md5_Sum st\<close>, a function of the
  secret \<open>st\<close> (and of the digest function of Go's library) and of nothing else, so
  deriving it again gives the same value. LoadFromDir is idempotent: run again on the
  pool it returned, over the same directory, it returns that pool unchanged with the
  count 0 and the same error. In a well-formed pool (the empty pool is one) LoadFromDir
  keeps the pool well-formed, no two tokens of the result hold the same secret, and the
  pool grows by exactly the count returned.
\<close>

theorem LoadFromDir_idempotent:
  "LoadFromDir md5_Sum dir (fst (LoadFromDir md5_Sum dir p))
     = (fst (LoadFromDir md5_Sum dir p), 0, snd (snd (LoadFromDir md5_Sum dir p))) \<and>
   (pool_wf md5_Sum p \<longrightarrow>
      pool_wf md5_Sum (fst (LoadFromDir md5_Sum dir p)) \<and>
      (\<forall>s. length (filter (\<lambda>(k, t). ST t = s) (tokens (fst (LoadFromDir md5_Sum dir p)))) \<le> 1) \<and>
      int (length (tokens (fst (LoadFromDir md5_Sum dir p))))
        = int (length (tokens p)) + fst (snd (LoadFromDir md5_Sum dir p)))"
proof (cases "dir_MkdirAll dir")
  case (Some err)
  then show ?thesis
    using pool_wf_one_per_secret [of md5_Sum p] by (simp add: LoadFromDir_def)
next
  case None
  show ?thesis
  proof (cases "dir_ReadDir dir")
    case (Inl err)
    with None show ?thesis
      using pool_wf_one_per_secret [of md5_Sum p] by (simp add: LoadFromDir_def)
  next
    case (Inr files)
    obtain p' loaded where run: "LoadFromDir_loop md5_Sum files p 0 = (p', loaded)"
      by (cases "LoadFromDir_loop md5_Sum files p 0")
    with None Inr have first: "LoadFromDir md5_Sum dir p = (p', loaded, None)"
      by (simp add: LoadFromDir_def)
    from LoadFromDir_loop_covers [OF run]
    have "\<forall>f \<in> set files. loadable f \<longrightarrow> entry_tokenID md5_Sum f \<in> fst ` set (tokens p')"
      by simp
    then have "LoadFromDir_loop md5_Sum files p' 0 = (p', 0)"
      by (rule LoadFromDir_loop_nothing_new)
    with None Inr have second: "LoadFromDir md5_Sum dir p' = (p', 0, None)"
      by (simp add: LoadFromDir_def)
    have "pool_wf md5_Sum p' \<and>
      (\<forall>s. length (filter (\<lambda>(k, t). ST t = s) (tokens p')) \<le> 1) \<and>
      int (length (tokens p')) = int (length (tokens p)) + loaded" if "pool_wf md5_Sum p"
    proof -
      from LoadFromDir_loop_wf [OF run that]
      have wf: "pool_wf md5_Sum p'"
        and n: "int (length (tokens p')) = int (length (tokens p)) + loaded"
        by simp_all
      from wf have "length (filter (\<lambda>(k, t). ST t = s) (tokens p')) \<le> 1" for s
        by (rule pool_wf_one_per_secret)
      with wf n show ?thesis by blast
    qed
    with first second show ?thesis by simp
  qed
qed

theorem LoadFromDir_idempotent_witness:
  "pool_wf example_md5 (NewTokenPool ''data'' (Some [])) \<and>
   fst (snd (LoadFromDir example_md5 example_dir (NewTokenPool ''data'' (Some [])))) = 1 \<and>
   length (tokens (fst (LoadFromDir example_md5 example_dir (NewTokenPool ''data'' (Some []))))) = 1 \<and>
   fst (snd (LoadFromDir example_md5 example_dir
               (fst (LoadFromDir example_md5 example_dir (NewTokenPool ''data'' (Some [])))))) = 0 \<and>
   tokens (fst (LoadFromDir example_md5 example_dir
               (fst (LoadFromDir example_md5 example_dir (NewTokenPool ''data'' (Some []))))))
     = tokens (fst (LoadFromDir example_md5 example_dir (NewTokenPool ''data'' (Some []))))"
proof -
  have wf: "pool_wf example_md5 (NewTokenPool ''data'' (Some []))"
    by (rule pool_wf_NewTokenPool)
  have n: "fst (snd (LoadFromDir example_md5 example_dir (NewTokenPool ''data'' (Some [])))) = 1"
    by (simp add: LoadFromDir_def example_dir_def NewTokenPool_def example_cookies Let_def)
  from LoadFromDir_idempotent [of example_md5 example_dir "NewTokenPool ''data'' (Some [])"] wf n
  show ?thesis by (simp add: NewTokenPool_def)
qed

subsection \<open>File events and the file index\<close>

lemma LoadFromDir_loop_fileIndex:
  "fileIndex (fst (LoadFromDir_loop md5_Sum files p loaded)) = fileIndex p"
  by (induction files arbitrary: p loaded) (auto simp: Let_def split: sum.splits)

lemma LoadFromDir_fileIndex: "fileIndex (fst (LoadFromDir md5_Sum dir p)) = fileIndex p"
proof (cases "dir_MkdirAll dir")
  case (Some err)
  then show ?thesis by (simp add: LoadFromDir_def)
next
  case None
  show ?thesis
  proof (cases "dir_ReadDir dir")
    case (Inl err)
    with None show ?thesis by (simp add: LoadFromDir_def)
  next
    case (Inr files)
    with None have "fst (LoadFromDir md5_Sum dir p) = fst (LoadFromDir_loop md5_Sum files p 0)"
      by (simp add: LoadFromDir_def split: prod.splits)
    then show ?thesis by (simp add: LoadFromDir_loop_fileIndex)
  qed
qed

lemma removeTokenByFile_unindexed: "fileIndex p fileName = None \<Longrightarrow> removeTokenByFile fileName p = p"
  by (simp add: removeTokenByFile_def)

lemma example_base: "Base ''data/at/a.txt'' = ''a.txt''"
  by code_simp

lemma example_not_ignored: "\<not> prefix ''.'' ''a.txt''" "\<not> EqualFold_README ''a.txt''"
  by (simp_all add: EqualFold_README_def)

lemma example_ops:
  "Remove AND Create \<noteq> Create" "Remove AND Write \<noteq> Write" "Remove AND Remove = Remove"
  "Rename AND Create \<noteq> Create" "Rename AND Write \<noteq> Write" "Rename AND Remove \<noteq> Remove"
  "Rename AND Rename = Rename"
  by (simp_all add: Create_def Write_def Remove_def Rename_def)

lemma example_loaded:
  "tokens (fst (LoadFromDir md5_Sum example_dir (NewTokenPool ''data'' (Some []))))
     = [(generateTokenID md5_Sum ''abc'', newFlowToken (generateTokenID md5_Sum ''abc'') ''abc'')]"
  by (simp add: LoadFromDir_def example_dir_def NewTokenPool_def example_cookies Let_def)

text \<open>
  A token that loadTokenFromFile registers is entered in the file index, and the removal
  of its file removes both the token and the entry.
\<close>

lemma loadTokenFromFile_then_remove:
  assumes "extractSessionToken content \<noteq> []"
    and "map_of (tokens p) (generateTokenID md5_Sum (extractSessionToken content)) = None"
    and "fileIndex p (Base filePath) = None"
  shows "fileIndex (loadTokenFromFile md5_Sum env (Inr content) filePath p) (Base filePath)
           = Some (generateTokenID md5_Sum (extractSessionToken content))"
    and "map_of (tokens (loadTokenFromFile md5_Sum env (Inr content) filePath p))
           (generateTokenID md5_Sum (extractSessionToken content)) \<noteq> None"
    and "map_of (tokens (removeTokenByFile (Base filePath)
                   (loadTokenFromFile md5_Sum env (Inr content) filePath p)))
           (generateTokenID md5_Sum (extractSessionToken content)) = None"
    and "fileIndex (removeTokenByFile (Base filePath)
                   (loadTokenFromFile md5_Sum env (Inr content) filePath p)) (Base filePath) = None"
  using assms
  by (simp_all add: loadTokenFromFile_def loadTokenFromFile_register_def removeTokenByFile_def
      Let_def update_conv' delete_conv')

text \<open>
  C4 fails for the tokens that LoadFromDir registers. LoadFromDir never writes to the
  file index: in a pool filled by it from a new pool no file name has an entry, and
  removeTokenByFile returns the pool as it is, for every file name. For the directory
  \<open>example_dir\<close>, whose file \<^verbatim>\<open>a.txt\<close> holds the session token \<^verbatim>\<open>abc\<close>, the token is in the
  pool after LoadFromDir and is still there after the Remove event and after the
  Rename event for \<^verbatim>\<open>data/at/a.txt\<close>.
\<close>

theorem LoadFromDir_leaves_fileIndex_empty:
  "fileIndex (fst (LoadFromDir md5_Sum dir (NewTokenPool d cl))) fileName = None \<and>
   removeTokenByFile fileName (fst (LoadFromDir md5_Sum dir (NewTokenPool d cl)))
     = fst (LoadFromDir md5_Sum dir (NewTokenPool d cl)) \<and>
   map fst (tokens (fst (LoadFromDir md5_Sum example_dir (NewTokenPool ''data'' (Some [])))))
     = [generateTokenID md5_Sum ''abc''] \<and>
   map fst (tokens (handleFileEvent md5_Sum env ReadFile
                      \<lparr>event_Name = ''data/at/a.txt'', event_Op = Remove\<rparr>
                      (fst (LoadFromDir md5_Sum example_dir (NewTokenPool ''data'' (Some []))))))
     = [generateTokenID md5_Sum ''abc''] \<and>
   map fst (tokens (handleFileEvent md5_Sum env ReadFile
                      \<lparr>event_Name = ''data/at/a.txt'', event_Op = Rename\<rparr>
                      (fst (LoadFromDir md5_Sum example_dir (NewTokenPool ''data'' (Some []))))))
     = [generateTokenID md5_Sum ''abc'']"
proof -
  let ?p = "fst (LoadFromDir md5_Sum dir (NewTokenPool d cl))"
  let ?q = "fst (LoadFromDir md5_Sum example_dir (NewTokenPool ''data'' (Some [])))"
  have none: "fileIndex ?p fileName = None"
    by (simp add: LoadFromDir_fileIndex NewTokenPool_def)
  have q: "removeTokenByFile ''a.txt'' ?q = ?q"
    by (rule removeTokenByFile_unindexed) (simp add: LoadFromDir_fileIndex NewTokenPool_def)
  have "handleFileEvent md5_Sum env ReadFile
          \<lparr>event_Name = ''data/at/a.txt'', event_Op = Remove\<rparr> ?q = ?q"
    by (simp add: handleFileEvent_def example_base example_not_ignored example_ops q)
  moreover have "handleFileEvent md5_Sum env ReadFile
          \<lparr>event_Name = ''data/at/a.txt'', event_Op = Rename\<rparr> ?q = ?q"
    by (simp add: handleFileEvent_def example_base example_not_ignored example_ops q)
  ultimately show ?thesis
    using none removeTokenByFile_unindexed [OF none] by (simp add: example_loaded)
qed

subsection \<open>The polling loop\<close>

lemma STATUS_SUCCESSFUL_no_error: "STATUS_SUCCESSFUL \<notin> set error_statuses"
  by (simp add: STATUS_SUCCESSFUL_def error_statuses_def)

lemma pollVideoResult_body_continue:
  assumes "CheckVideoStatus_r env (nat i) = Inr resp" and "\<not> terminal resp"
  shows "snd (pollVideoResult_body env streamCb at taskID sceneID maxAttempts pollInterval i) = None"
    and "query_events (fst (pollVideoResult_body env streamCb at taskID sceneID maxAttempts
                              pollInterval i))
         = [Sleep (wrap64 (wrap64 pollInterval * Second)), CheckVideoStatus at taskID sceneID]"
  using assms by (auto simp: pollVideoResult_body_def terminal_def query_events_def Let_def)

lemma pollVideoResult_body_success:
  assumes "CheckVideoStatus_r env (nat i) = Inr resp"
    and "Status resp = STATUS_SUCCESSFUL" and "VideoURL resp \<noteq> []"
  shows "snd (pollVideoResult_body env streamCb at taskID sceneID maxAttempts pollInterval i)
         = Some (Inr (VideoURL resp))"
    and "query_events (fst (pollVideoResult_body env streamCb at taskID sceneID maxAttempts
                              pollInterval i))
         = [Sleep (wrap64 (wrap64 pollInterval * Second)), CheckVideoStatus at taskID sceneID]"
  using assms by (auto simp: pollVideoResult_body_def query_events_def Let_def)

lemma pollVideoResult_loop_continue:
  assumes "i < maxAttempts"
    and "snd (pollVideoResult_body env streamCb at taskID sceneID maxAttempts pollInterval i) = None"
  shows "pollVideoResult_loop env streamCb at taskID sceneID maxAttempts pollInterval i =
           (fst (pollVideoResult_body env streamCb at taskID sceneID maxAttempts pollInterval i)
            @ fst (pollVideoResult_loop env streamCb at taskID sceneID maxAttempts pollInterval (i + 1)),
            snd (pollVideoResult_loop env streamCb at taskID sceneID maxAttempts pollInterval (i + 1)))"
  using assms
  by (subst pollVideoResult_loop.simps)
     (auto split: prod.splits option.splits)

lemma pollVideoResult_loop_return:
  assumes "i < maxAttempts"
    and "snd (pollVideoResult_body env streamCb at taskID sceneID maxAttempts pollInterval i) = Some r"
  shows "pollVideoResult_loop env streamCb at taskID sceneID maxAttempts pollInterval i =
           (fst (pollVideoResult_body env streamCb at taskID sceneID maxAttempts pollInterval i), r)"
  using assms
  by (subst pollVideoResult_loop.simps)
     (auto split: prod.splits option.splits)

lemma pollVideoResult_loop_exhausted:
  "\<not> i < maxAttempts \<Longrightarrow>
   pollVideoResult_loop env streamCb at taskID sceneID maxAttempts pollInterval i =
     ([], Inl (VideoGenerationTimeout maxAttempts))"
  by (subst pollVideoResult_loop.simps) simp

lemma query_events_append [simp]: "query_events (xs @ ys) = query_events xs @ query_events ys"
  by (simp add: query_events_def)

lemma pollVideoResult_loop_timeout:
  assumes "\<forall>j. CheckVideoStatus_r env j = Inr (resp j)"
    and "\<forall>j. int j < maxAttempts \<longrightarrow> \<not> terminal (resp j)"
    and "0 \<le> i"
  shows "snd (pollVideoResult_loop env streamCb at taskID sceneID maxAttempts pollInterval i)
           = Inl (VideoGenerationTimeout maxAttempts) \<and>
         query_events (fst (pollVideoResult_loop env streamCb at taskID sceneID maxAttempts
                              pollInterval i))
           = concat (replicate (nat (maxAttempts - i))
               [Sleep (wrap64 (wrap64 pollInterval * Second)), CheckVideoStatus at taskID sceneID])"
  using assms(3)
proof (induction "nat (maxAttempts - i)" arbitrary: i)
  case 0
  then have "\<not> i < maxAttempts" by simp
  then show ?case using 0 by (simp add: pollVideoResult_loop_exhausted query_events_def)
next
  case (Suc n)
  then have lt: "i < maxAttempts" by simp
  have q: "CheckVideoStatus_r env (nat i) = Inr (resp (nat i))" using assms(1) by simp
  have nt: "\<not> terminal (resp (nat i))" using assms(2) lt Suc.prems by simp
  note body = pollVideoResult_body_continue [OF q nt]
  have n: "n = nat (maxAttempts - (i + 1))" using Suc.hyps(2) by simp
  have next_ok: "0 \<le> i + 1" using Suc.prems by simp
  note IH = Suc.hyps(1) [OF n next_ok]
  have "nat (maxAttempts - i) = Suc (nat (maxAttempts - (i + 1)))" using lt by simp
  then show ?case
    using IH by (simp add: pollVideoResult_loop_continue [OF lt body(1)] body(2))
qed

lemma pollVideoResult_loop_success:
  assumes "\<forall>j. CheckVideoStatus_r env j = Inr (resp j)"
    and "int m < maxAttempts"
    and "\<forall>j < m. \<not> terminal (resp j)"
    and "Status (resp m) = STATUS_SUCCESSFUL" and "VideoURL (resp m) \<noteq> []"
    and "0 \<le> i" and "i \<le> int m"
  shows "snd (pollVideoResult_loop env streamCb at taskID sceneID maxAttempts pollInterval i)
           = Inr (VideoURL (resp m)) \<and>
         query_events (fst (pollVideoResult_loop env streamCb at taskID sceneID maxAttempts
                              pollInterval i))
           = concat (replicate (Suc (nat (int m - i)))
               [Sleep (wrap64 (wrap64 pollInterval * Second)), CheckVideoStatus at taskID sceneID])"
  using assms(6,7)
proof (induction "nat (int m - i)" arbitrary: i)
  case 0
  then have i: "i = int m" by simp
  then have lt: "i < maxAttempts" using assms(2) by simp
  have q: "CheckVideoStatus_r env (nat i) = Inr (resp m)" using assms(1) i by simp
  note body = pollVideoResult_body_success [OF q assms(4,5)]
  have "nat (int m - i) = 0" using i by simp
  then show ?case
    by (simp add: pollVideoResult_loop_return [OF lt body(1)] body(2))
next
  case (Suc n)
  then have lt_m: "i < int m" by simp
  then have lt: "i < maxAttempts" using assms(2) by simp
  have q: "CheckVideoStatus_r env (nat i) = Inr (resp (nat i))" using assms(1) by simp
  have nt: "\<not> terminal (resp (nat i))" using assms(3) lt_m Suc.prems by simp
  note body = pollVideoResult_body_continue [OF q nt]
  have n: "n = nat (int m - (i + 1))" using Suc.hyps(2) by simp
  have next_ok: "0 \<le> i + 1" "i + 1 \<le> int m" using Suc.prems lt_m by simp_all
  note IH = Suc.hyps(1) [OF n next_ok]
  have "nat (int m - i) = Suc (nat (int m - (i + 1)))" using lt_m by simp
  then show ?case
    using IH by (simp add: pollVideoResult_loop_continue [OF lt body(1)] body(2))
qed

lemma wrap64_id: "- (2 ^ 63) \<le> x \<Longrightarrow> x < 2 ^ 63 \<Longrightarrow> wrap64 x = x"
  by (simp add: wrap64_def)

lemma wrap64_less: "wrap64 x < 2 ^ 63"
proof -
  have "(x + 2 ^ 63) mod 2 ^ 64 < (2 ^ 64 :: int)" by simp
  then show ?thesis by (simp add: wrap64_def)
qed

lemma example_long_interval_run:
  "pollVideoResult example_handler_env_long_interval False example_token ''task-1'' ''scene-1''
     = ([Sleep (- 9223372036709551616), CheckVideoStatus ''access-1'' ''task-1'' ''scene-1''],
        Inr ''https://example.com/video.mp4'')"
  by (simp add: pollVideoResult_def pollVideoResult_loop.simps [where i = 0]
      pollVideoResult_body_def example_handler_env_long_interval_def example_handler_env_def
      example_done_def example_token_def wrap64_def Second_def)

text \<open>
  C1, as stated, fails for an interval that a \<^verbatim>\<open>time.Duration\<close> cannot hold. The sleep
  before each query is \<^verbatim>\<open>time.Sleep(time.Duration(pollInterval) * time.Second)\<close>, and the
  product wraps around 64 bits. With PollInterval 9223372037 (seconds), MaxPollAttempts
  1 and a first answer that is the finished video, pollVideoResult returns the URL
  after one query, and the duration handed to the sleep before it is
  \<open>-9223372036709551616\<close> nanoseconds: \<^verbatim>\<open>time.Sleep\<close> returns at once for a duration that
  is not positive, so the query is not preceded by a sleep of PollInterval.
\<close>

theorem pollVideoResult_sleep_counterexample:
  "PollInterval example_handler_env_long_interval = 9223372037 \<and>
   MaxPollAttempts example_handler_env_long_interval = 1 \<and>
   CheckVideoStatus_r example_handler_env_long_interval 0 = Inr example_done \<and>
   pollVideoResult example_handler_env_long_interval False example_token ''task-1'' ''scene-1''
     = ([Sleep (- 9223372036709551616), CheckVideoStatus ''access-1'' ''task-1'' ''scene-1''],
        Inr ''https://example.com/video.mp4'') \<and>
   - 9223372036709551616 < PollInterval example_handler_env_long_interval * Second"
  by (simp add: example_long_interval_run)
     (simp add: example_handler_env_long_interval_def Second_def)

text \<open>
  C1, amended. Every status query succeeds, with the answers \<open>resp 0\<close>, \<open>resp 1\<close>, ... If
  the first terminal answer is number \<open>N\<close> (counted from 1), with \<open>N\<close> at most
  MaxPollAttempts, and it is the success status with a video URL, pollVideoResult
  returns that URL; the sleeps and queries it made are \<open>N\<close> times a sleep followed by a
  query, so there are exactly \<open>N\<close> queries. If no answer below MaxPollAttempts is
  terminal, it returns the timeout error, after MaxPollAttempts times a sleep followed
  by a query. The duration of each sleep is \<^verbatim>\<open>time.Duration(pollInterval) * time.Second\<close>:
  it is PollInterval seconds when PollInterval is not negative and that number of
  nanoseconds is below \<open>2 ^ 63\<close>, and it is less than PollInterval seconds when that
  number of nanoseconds reaches \<open>2 ^ 63\<close>.
\<close>

theorem pollVideoResult_success_or_timeout:
  assumes "\<forall>j. CheckVideoStatus_r env j = Inr (resp j)"
  shows "(1 \<le> N \<and> int N \<le> MaxPollAttempts env \<and> (\<forall>j < N - 1. \<not> terminal (resp j)) \<and>
          Status (resp (N - 1)) = STATUS_SUCCESSFUL \<and> VideoURL (resp (N - 1)) \<noteq> [] \<longrightarrow>
            snd (pollVideoResult env streamCb token taskID sceneID)
              = Inr (VideoURL (resp (N - 1))) \<and>
            query_events (fst (pollVideoResult env streamCb token taskID sceneID))
              = concat (replicate N
                  [Sleep (wrap64 (wrap64 (PollInterval env) * Second)),
                   CheckVideoStatus (AT token) taskID sceneID]) \<and>
            length (filter is_CheckVideoStatus
                      (fst (pollVideoResult env streamCb token taskID sceneID))) = N) \<and>
         ((\<forall>j. int j < MaxPollAttempts env \<longrightarrow> \<not> terminal (resp j)) \<longrightarrow>
            snd (pollVideoResult env streamCb token taskID sceneID)
              = Inl (VideoGenerationTimeout (MaxPollAttempts env)) \<and>
            query_events (fst (pollVideoResult env streamCb token taskID sceneID))
              = concat (replicate (nat (MaxPollAttempts env))
                  [Sleep (wrap64 (wrap64 (PollInterval env) * Second)),
                   CheckVideoStatus (AT token) taskID sceneID]) \<and>
            int (length (filter is_CheckVideoStatus
                      (fst (pollVideoResult env streamCb token taskID sceneID))))
              = max 0 (MaxPollAttempts env)) \<and>
         (0 \<le> PollInterval env \<and> PollInterval env * Second < 2 ^ 63 \<longrightarrow>
            wrap64 (wrap64 (PollInterval env) * Second) = PollInterval env * Second) \<and>
         (2 ^ 63 \<le> PollInterval env * Second \<longrightarrow>
            wrap64 (wrap64 (PollInterval env) * Second) < PollInterval env * Second)"
proof -
  let ?run = "pollVideoResult env streamCb token taskID sceneID"
  let ?pair = "[Sleep (wrap64 (wrap64 (PollInterval env) * Second)),
                   CheckVideoStatus (AT token) taskID sceneID]"
  have count: "length (filter is_CheckVideoStatus calls) = n"
    if "query_events calls = concat (replicate n ?pair)" for calls n
  proof -
    have "filter is_CheckVideoStatus calls = filter is_CheckVideoStatus (query_events calls)"
      unfolding query_events_def by (induction calls) (auto simp: call.disc_eq_case split: call.splits)
    also have "\<dots> = filter is_CheckVideoStatus (concat (replicate n ?pair))"
      using that by simp
    also have "length \<dots> = n" by (induction n) simp_all
    finally show ?thesis .
  qed
  have success: "snd ?run = Inr (VideoURL (resp (N - 1))) \<and>
      query_events (fst ?run) = concat (replicate N ?pair) \<and>
      length (filter is_CheckVideoStatus (fst ?run)) = N"
    if h: "1 \<le> N" "int N \<le> MaxPollAttempts env" "\<forall>j < N - 1. \<not> terminal (resp j)"
      "Status (resp (N - 1)) = STATUS_SUCCESSFUL" "VideoURL (resp (N - 1)) \<noteq> []"
  proof -
    from h(1) obtain m where N: "N = Suc m" by (cases N) simp_all
    have m: "int m < MaxPollAttempts env" using h(2) N by simp
    from pollVideoResult_loop_success [OF assms m, of 0 streamCb "AT token" taskID sceneID
        "PollInterval env"] h(3,4,5) N
    have "snd ?run = Inr (VideoURL (resp (N - 1)))"
      "query_events (fst ?run) = concat (replicate N ?pair)"
      by (simp_all add: pollVideoResult_def)
    with count show ?thesis by simp
  qed
  have timeout: "snd ?run = Inl (VideoGenerationTimeout (MaxPollAttempts env)) \<and>
      query_events (fst ?run) = concat (replicate (nat (MaxPollAttempts env)) ?pair) \<and>
      int (length (filter is_CheckVideoStatus (fst ?run))) = max 0 (MaxPollAttempts env)"
    if h: "\<forall>j. int j < MaxPollAttempts env \<longrightarrow> \<not> terminal (resp j)"
  proof -
    from pollVideoResult_loop_timeout [OF assms h, of 0 streamCb "AT token" taskID sceneID
        "PollInterval env"]
    have "snd ?run = Inl (VideoGenerationTimeout (MaxPollAttempts env))"
      "query_events (fst ?run) = concat (replicate (nat (MaxPollAttempts env)) ?pair)"
      by (simp_all add: pollVideoResult_def)
    with count show ?thesis by (simp add: max_def)
  qed
  have duration: "wrap64 (wrap64 (PollInterval env) * Second) = PollInterval env * Second"
    if h: "0 \<le> PollInterval env" "PollInterval env * Second < 2 ^ 63"
  proof -
    have "PollInterval env \<le> PollInterval env * Second"
      using h(1) by (simp add: Second_def)
    with h have "wrap64 (PollInterval env) = PollInterval env"
      by (intro wrap64_id) simp_all
    moreover have "0 \<le> PollInterval env * Second" using h(1) by (simp add: Second_def)
    then have "wrap64 (PollInterval env * Second) = PollInterval env * Second"
      using h(2) by (intro wrap64_id) simp_all
    ultimately show ?thesis by simp
  qed
  have shorter: "wrap64 (wrap64 (PollInterval env) * Second) < PollInterval env * Second"
    if h: "2 ^ 63 \<le> PollInterval env * Second"
    using wrap64_less [of "wrap64 (PollInterval env) * Second"] h by simp
  from success timeout duration shorter show ?thesis by blast
qed

theorem pollVideoResult_success_or_timeout_witness:
  "snd (pollVideoResult example_handler_env True example_token ''task-1'' ''scene-1'')
     = Inr ''https://example.com/video.mp4'' \<and>
   query_events (fst (pollVideoResult example_handler_env True example_token ''task-1'' ''scene-1''))
     = [Sleep 2000000000, CheckVideoStatus ''access-1'' ''task-1'' ''scene-1'',
        Sleep 2000000000, CheckVideoStatus ''access-1'' ''task-1'' ''scene-1''] \<and>
   snd (pollVideoResult example_handler_env_pending True example_token ''task-1'' ''scene-1'')
     = Inl (VideoGenerationTimeout 3) \<and>
   length (filter is_CheckVideoStatus
      (fst (pollVideoResult example_handler_env_pending True example_token ''task-1'' ''scene-1'')))
     = 3 \<and>
   wrap64 (wrap64 (PollInterval example_handler_env) * Second) = 2 * Second \<and>
   wrap64 (wrap64 (PollInterval example_handler_env_long_interval) * Second)
     < 9223372037 * Second"
proof -
  have q1: "\<forall>j. CheckVideoStatus_r example_handler_env j = Inr (example_statuses j)"
    by (simp add: example_handler_env_def)
  have q2: "\<forall>j. CheckVideoStatus_r example_handler_env_pending j = Inr example_pending"
    by (simp add: example_handler_env_pending_def)
  have np: "\<not> terminal example_pending"
    by (simp add: terminal_def example_pending_def STATUS_SUCCESSFUL_def error_statuses_def)
  have h1: "1 \<le> (2::nat) \<and> int 2 \<le> MaxPollAttempts example_handler_env \<and>
      (\<forall>j < 2 - 1. \<not> terminal (example_statuses j)) \<and>
      Status (example_statuses (2 - 1)) = STATUS_SUCCESSFUL \<and>
      VideoURL (example_statuses (2 - 1)) \<noteq> []"
    using np by (simp add: example_handler_env_def example_statuses_def example_done_def)
  have h2: "\<forall>j. int j < MaxPollAttempts example_handler_env_pending \<longrightarrow> \<not> terminal example_pending"
    using np by simp
  have iv: "0 \<le> PollInterval example_handler_env \<and>
      PollInterval example_handler_env * Second < 2 ^ 63"
    by (simp add: example_handler_env_def Second_def)
  from pollVideoResult_success_or_timeout [OF q1, of 2 True example_token "''task-1''" "''scene-1''"]
    h1 iv
  have a: "snd (pollVideoResult example_handler_env True example_token ''task-1'' ''scene-1'')
     = Inr ''https://example.com/video.mp4''"
    "query_events (fst (pollVideoResult example_handler_env True example_token ''task-1'' ''scene-1''))
     = [Sleep 2000000000, CheckVideoStatus ''access-1'' ''task-1'' ''scene-1'',
        Sleep 2000000000, CheckVideoStatus ''access-1'' ''task-1'' ''scene-1'']"
    by (simp_all add: example_statuses_def example_done_def example_handler_env_def Second_def
        example_token_def numeral_2_eq_2)
  from pollVideoResult_success_or_timeout [OF q2, of 0 True example_token "''task-1''" "''scene-1''"]
    h2
  have b: "snd (pollVideoResult example_handler_env_pending True example_token ''task-1'' ''scene-1'')
     = Inl (VideoGenerationTimeout 3)"
    "length (filter is_CheckVideoStatus
      (fst (pollVideoResult example_handler_env_pending True example_token ''task-1'' ''scene-1'')))
     = 3"
    by (simp_all add: example_handler_env_pending_def example_handler_env_def)
  from pollVideoResult_success_or_timeout [OF q1, of 2 True example_token "''task-1''" "''scene-1''"]
    iv
  have c: "wrap64 (wrap64 (PollInterval example_handler_env) * Second) = 2 * Second"
    by (simp add: example_handler_env_def)
  have q3: "\<forall>j. CheckVideoStatus_r example_handler_env_long_interval j = Inr example_done"
    by (simp add: example_handler_env_long_interval_def)
  have long: "2 ^ 63 \<le> PollInterval example_handler_env_long_interval * Second"
    by (simp add: example_handler_env_long_interval_def Second_def)
  from pollVideoResult_success_or_timeout
         [OF q3, of 1 False example_token "''task-1''" "''scene-1''"] long
  have d: "wrap64 (wrap64 (PollInterval example_handler_env_long_interval) * Second)
             < 9223372037 * Second"
    by (simp add: example_handler_env_long_interval_def)
  from a b c d show ?thesis by simp
qed

subsection \<open>Progress chunks\<close>

lemma progress_le_95: "progress i maxAttempts \<le> 95"
  by (simp add: progress_def min_go_def)

lemma progress_exact:
  assumes "0 \<le> i" and "i * 100 < 2 ^ 63" and "0 < maxAttempts"
  shows "progress i maxAttempts = min (i * 100 div maxAttempts) 95"
proof -
  have "wrap64 (i * 100) = i * 100"
    using assms(1,2) by (intro wrap64_id) simp_all
  moreover have "(i * 100) sdiv maxAttempts = i * 100 div maxAttempts"
    using assms(1,3) by (cases "i = 0") (simp_all add: signed_divide_int_def sgn_if)
  ultimately show ?thesis
    by (simp add: progress_def min_go_def min_def)
qed

lemma smod_7: "0 \<le> i \<Longrightarrow> i smod 7 = i mod 7" for i :: int
  by (simp add: signed_modulo_int_def sgn_if)

lemma pollVideoResult_body_chunks:
  assumes "0 \<le> i"
  shows "filter is_Emit
           (fst (pollVideoResult_body env streamCb at taskID sceneID maxAttempts pollInterval i))
         = (if streamCb \<and> \<not> isl (CheckVideoStatus_r env (nat i)) \<and> i mod 7 = 0
            then [Emit (Progress (progress i maxAttempts)) False] else [])"
  using assms
  by (cases "CheckVideoStatus_r env (nat i)")
     (simp_all add: pollVideoResult_body_def Let_def smod_7)

lemma pollVideoResult_loop_calls:
  "set (fst (pollVideoResult_loop env streamCb at taskID sceneID maxAttempts pollInterval i))
   \<subseteq> (if i < maxAttempts
       then set (fst (pollVideoResult_body env streamCb at taskID sceneID maxAttempts pollInterval i))
            \<union> set (fst (pollVideoResult_loop env streamCb at taskID sceneID maxAttempts
                           pollInterval (i + 1)))
       else {})"
proof (cases "i < maxAttempts")
  case False
  then show ?thesis by (simp add: pollVideoResult_loop_exhausted)
next
  case True
  show ?thesis
  proof (cases "snd (pollVideoResult_body env streamCb at taskID sceneID maxAttempts pollInterval i)")
    case None
    from pollVideoResult_loop_continue [OF True None] True show ?thesis by simp
  next
    case (Some r)
    from pollVideoResult_loop_return [OF True Some] True show ?thesis by simp
  qed
qed

lemma pollVideoResult_loop_chunks:
  assumes "0 \<le> i"
    and "c \<in> set (fst (pollVideoResult_loop env streamCb at taskID sceneID maxAttempts
                         pollInterval i))"
    and "is_Emit c"
  shows "\<exists>j. i \<le> j \<and> j < maxAttempts \<and> j mod 7 = 0 \<and> streamCb \<and>
             \<not> isl (CheckVideoStatus_r env (nat j)) \<and>
             c = Emit (Progress (progress j maxAttempts)) False"
  using assms(1,2)
proof (induction "nat (maxAttempts - i)" arbitrary: i)
  case 0
  then have "\<not> i < maxAttempts" by simp
  then have "fst (pollVideoResult_loop env streamCb at taskID sceneID maxAttempts
                         pollInterval i) = []"
    by (simp add: pollVideoResult_loop_exhausted)
  with "0.prems"(2) show ?case by simp
next
  case (Suc n)
  from Suc.hyps(2) have lt: "i < maxAttempts" by simp
  let ?body = "fst (pollVideoResult_body env streamCb at taskID sceneID maxAttempts pollInterval i)"
  let ?rest = "fst (pollVideoResult_loop env streamCb at taskID sceneID maxAttempts
                          pollInterval (i + 1))"
  have "set (fst (pollVideoResult_loop env streamCb at taskID sceneID maxAttempts pollInterval i))
          \<subseteq> set ?body \<union> set ?rest"
    using pollVideoResult_loop_calls [of env streamCb at taskID sceneID maxAttempts pollInterval i]
      lt by (simp only: if_True)
  with Suc.prems(2) consider (here) "c \<in> set ?body" | (later) "c \<in> set ?rest"
    by blast
  then show ?case
  proof cases
    case here
    with assms(3) have "c \<in> set (filter is_Emit ?body)"
      by simp
    moreover have "filter is_Emit ?body
         = (if streamCb \<and> \<not> isl (CheckVideoStatus_r env (nat i)) \<and> i mod 7 = 0
            then [Emit (Progress (progress i maxAttempts)) False] else [])"
      by (rule pollVideoResult_body_chunks [OF Suc.prems(1)])
    ultimately have "c \<in> set (if streamCb \<and> \<not> isl (CheckVideoStatus_r env (nat i)) \<and> i mod 7 = 0
            then [Emit (Progress (progress i maxAttempts)) False] else [])"
      by (simp only:)
    then have "streamCb \<and> \<not> isl (CheckVideoStatus_r env (nat i)) \<and> i mod 7 = 0 \<and>
        c = Emit (Progress (progress i maxAttempts)) False"
      by (simp split: if_splits)
    with lt show ?thesis by (intro exI [of _ i]) simp
  next
    case later
    have n: "n = nat (maxAttempts - (i + 1))" using Suc.hyps(2) by simp
    have "0 \<le> i + 1" using Suc.prems(1) by simp
    from Suc.hyps(1) [OF n this later] obtain j
      where "i + 1 \<le> j \<and> j < maxAttempts \<and> j mod 7 = 0 \<and> streamCb \<and>
        \<not> isl (CheckVideoStatus_r env (nat j)) \<and>
        c = Emit (Progress (progress j maxAttempts)) False" ..
    then show ?thesis by (intro exI [of _ j]) simp
  qed
qed

text \<open>The loop unrolled at its first indices, for runs on concrete inputs.\<close>

lemmas loop_unroll =
  pollVideoResult_loop.simps [where i = 0] pollVideoResult_loop.simps [where i = 1]
  pollVideoResult_loop.simps [where i = 2] pollVideoResult_loop.simps [where i = 3]

text \<open>
  C9, as stated, fails: a progress chunk is not emitted on every attempt whose index is
  a multiple of 7. With a stream callback and a transport client whose status queries
  fail, the three attempts 0, 1, 2 of a run are made and no chunk is emitted, attempt 0
  included: a failed query makes the loop continue before the progress block. Without a
  stream callback no chunk is emitted either. And the value is computed in Go's 64-bit
  \<^verbatim>\<open>int\<close>: for the attempt 92233720368547759 the product \<^verbatim>\<open>i*100\<close> wraps around and the
  value is 0, where exact arithmetic gives 1.
\<close>

theorem progress_chunks_counterexample:
  "filter is_Emit (fst (pollVideoResult example_handler_env_unreachable True example_token
                          ''task-1'' ''scene-1'')) = [] \<and>
   length (filter is_CheckVideoStatus
             (fst (pollVideoResult example_handler_env_unreachable True example_token
                          ''task-1'' ''scene-1''))) = 3 \<and>
   filter is_Emit (fst (pollVideoResult example_handler_env_pending False example_token
                          ''task-1'' ''scene-1'')) = [] \<and>
   progress 92233720368547759 9223372036854775807 = 0 \<and>
   min_go (92233720368547759 * 100 div 9223372036854775807) 95 = 1"
proof -
  have a: "fst (pollVideoResult example_handler_env_unreachable True example_token
                          ''task-1'' ''scene-1'')
      = [Sleep 2000000000, CheckVideoStatus ''access-1'' ''task-1'' ''scene-1'',
         Sleep 2000000000, CheckVideoStatus ''access-1'' ''task-1'' ''scene-1'',
         Sleep 2000000000, CheckVideoStatus ''access-1'' ''task-1'' ''scene-1'']"
    by (simp add: pollVideoResult_def loop_unroll pollVideoResult_body_def
      example_handler_env_unreachable_def example_handler_env_def
      example_token_def wrap64_def Second_def)
  have b: "fst (pollVideoResult example_handler_env_pending False example_token
                          ''task-1'' ''scene-1'')
      = [Sleep 2000000000, CheckVideoStatus ''access-1'' ''task-1'' ''scene-1'',
         Sleep 2000000000, CheckVideoStatus ''access-1'' ''task-1'' ''scene-1'',
         Sleep 2000000000, CheckVideoStatus ''access-1'' ''task-1'' ''scene-1'']"
    by (simp add: pollVideoResult_def loop_unroll pollVideoResult_body_def
      example_handler_env_pending_def example_handler_env_def example_pending_def
      STATUS_SUCCESSFUL_def error_statuses_def
      example_token_def wrap64_def Second_def)
  have c: "progress 92233720368547759 9223372036854775807 = 0"
    by (simp add: progress_def wrap64_def min_go_def signed_divide_int_def)
  have d: "min_go (92233720368547759 * 100 div 9223372036854775807) 95 = 1"
    by (simp add: min_go_def)
  from c d show ?thesis by (simp add: a b)
qed

text \<open>
  C9, amended: the value \<open>progress i maxAttempts\<close> of a progress chunk is at most 95 for
  every attempt \<open>i\<close> and every \<open>maxAttempts\<close>, and it is \<open>min (i * 100 div maxAttempts) 95\<close>
  in exact integer arithmetic whenever \<open>i * 100\<close> fits the 64 bits. The attempt \<open>i\<close> emits
  one progress chunk if there is a stream callback, its status query succeeded and \<open>i\<close>
  is a multiple of 7, and emits no chunk otherwise; every chunk emitted by
  pollVideoResult is such a progress chunk, of an attempt below MaxPollAttempts.
\<close>

theorem progress_chunks:
  "progress i maxAttempts \<le> 95 \<and>
   (0 \<le> i \<and> i * 100 < 2 ^ 63 \<and> 0 < maxAttempts \<longrightarrow>
      progress i maxAttempts = min (i * 100 div maxAttempts) 95) \<and>
   (0 \<le> i \<longrightarrow>
      filter is_Emit
        (fst (pollVideoResult_body env streamCb at taskID sceneID maxAttempts pollInterval i))
      = (if streamCb \<and> \<not> isl (CheckVideoStatus_r env (nat i)) \<and> i mod 7 = 0
         then [Emit (Progress (progress i maxAttempts)) False] else [])) \<and>
   (\<forall>c \<in> set (fst (pollVideoResult env streamCb token taskID sceneID)).
      is_Emit c \<longrightarrow>
        (\<exists>j. 0 \<le> j \<and> j < MaxPollAttempts env \<and> j mod 7 = 0 \<and> streamCb \<and>
             \<not> isl (CheckVideoStatus_r env (nat j)) \<and>
             c = Emit (Progress (progress j (MaxPollAttempts env))) False \<and>
             progress j (MaxPollAttempts env) \<le> 95))"
proof -
  have chunks: "\<exists>j. 0 \<le> j \<and> j < MaxPollAttempts env \<and> j mod 7 = 0 \<and> streamCb \<and>
             \<not> isl (CheckVideoStatus_r env (nat j)) \<and>
             c = Emit (Progress (progress j (MaxPollAttempts env))) False \<and>
             progress j (MaxPollAttempts env) \<le> 95"
    if c: "c \<in> set (fst (pollVideoResult env streamCb token taskID sceneID))" "is_Emit c" for c
  proof -
    from c(1) have "c \<in> set (fst (pollVideoResult_loop env streamCb (AT token) taskID sceneID
                         (MaxPollAttempts env) (PollInterval env) 0))"
      by (simp only: pollVideoResult_def)
    from pollVideoResult_loop_chunks [OF order_refl this c(2)] obtain j
      where "0 \<le> j \<and> j < MaxPollAttempts env \<and> j mod 7 = 0 \<and> streamCb \<and>
        \<not> isl (CheckVideoStatus_r env (nat j)) \<and>
        c = Emit (Progress (progress j (MaxPollAttempts env))) False" ..
    with progress_le_95 [of j "MaxPollAttempts env"] show ?thesis
      by (intro exI [of _ j]) simp
  qed
  have exact: "progress i maxAttempts = min (i * 100 div maxAttempts) 95"
    if "0 \<le> i \<and> i * 100 < 2 ^ 63 \<and> 0 < maxAttempts"
    using that by (intro progress_exact) simp_all
  show ?thesis
    using progress_le_95 [of i maxAttempts] exact
      pollVideoResult_body_chunks [of i env streamCb at taskID sceneID maxAttempts pollInterval]
      chunks
    by blast
qed

theorem progress_chunks_witness:
  "progress 7 100 = 7 \<and>
   filter is_Emit (fst (pollVideoResult_body example_handler_env True ''access-1'' ''task-1''
                          ''scene-1'' 100 2 7)) = [Emit (Progress 7) False] \<and>
   filter is_Emit (fst (pollVideoResult_body example_handler_env True ''access-1'' ''task-1''
                          ''scene-1'' 100 2 8)) = [] \<and>
   Emit (Progress 0) False
     \<in> set (fst (pollVideoResult example_handler_env True example_token ''task-1'' ''scene-1'')) \<and>
   (\<exists>j. 0 \<le> j \<and> j < 3 \<and> j mod 7 = 0 \<and> progress j 3 = 0 \<and> progress j 3 \<le> 95)"
proof -
  have run: "fst (pollVideoResult example_handler_env True example_token ''task-1'' ''scene-1'')
      = [Sleep 2000000000, CheckVideoStatus ''access-1'' ''task-1'' ''scene-1'',
         Emit (Progress 0) False,
         Sleep 2000000000, CheckVideoStatus ''access-1'' ''task-1'' ''scene-1'']"
    by (simp add: pollVideoResult_def loop_unroll pollVideoResult_body_def
      example_handler_env_def example_statuses_def example_pending_def example_done_def
      STATUS_SUCCESSFUL_def error_statuses_def example_token_def wrap64_def Second_def
      progress_def min_go_def signed_divide_int_def signed_modulo_int_def)
  have ok: "\<not> isl (CheckVideoStatus_r example_handler_env (nat i))" for i
    by (simp add: example_handler_env_def)
  have m: "MaxPollAttempts example_handler_env = 3"
    by (simp add: example_handler_env_def)
  have mem: "Emit (Progress 0) False
     \<in> set (fst (pollVideoResult example_handler_env True example_token ''task-1'' ''scene-1''))"
    by (simp add: run)
  note at7 = progress_chunks [where i = 7 and maxAttempts = 100 and env = example_handler_env
      and streamCb = True and at = "''access-1''" and taskID = "''task-1''"
      and sceneID = "''scene-1''" and pollInterval = 2 and token = example_token]
  note at8 = progress_chunks [where i = 8 and maxAttempts = 100 and env = example_handler_env
      and streamCb = True and at = "''access-1''" and taskID = "''task-1''"
      and sceneID = "''scene-1''" and pollInterval = 2 and token = example_token]
  from at7 have p7: "progress 7 100 = 7" by simp
  from at7 ok [of 7] p7 have b7: "filter is_Emit
      (fst (pollVideoResult_body example_handler_env True ''access-1'' ''task-1''
              ''scene-1'' 100 2 7)) = [Emit (Progress 7) False]"
    by simp
  from at8 have b8: "filter is_Emit
      (fst (pollVideoResult_body example_handler_env True ''access-1'' ''task-1''
              ''scene-1'' 100 2 8)) = []"
    by simp
  from at7 mem have "\<exists>j. 0 \<le> j \<and> j < 3 \<and> j mod 7 = 0 \<and>
      Emit (Progress 0) False = Emit (Progress (progress j 3)) False \<and> progress j 3 \<le> 95"
    unfolding m by fastforce
  then have "\<exists>j. 0 \<le> j \<and> j < 3 \<and> j mod 7 = 0 \<and> progress j 3 = 0 \<and> progress j 3 \<le> 95"
    by auto
  with p7 b7 b8 mem show ?thesis by blast
qed

subsection \<open>Failure of the access-token exchange\<close>

text \<open>
  C7. The model is known, a token is selected and ensureATValid returns an error, which
  it does only when it called \<^verbatim>\<open>STToAT\<close> and the call failed. Then HandleGeneration
  returns the authentication failure with that error; the call of \<^verbatim>\<open>STToAT\<close> is the only
  thing the request did, and the token is what it was before, its error count and
  disabled flag included.
\<close>

theorem HandleGeneration_auth_failure:
  assumes "GetFlowModelConfig (Model req) = Some modelConfig"
    and "SelectToken = Some token"
    and "snd (snd (ensureATValid env token)) = Some err"
  shows "HandleGeneration GetFlowModelConfig SelectToken env streamCb req
           = ([STToAT (ST token)], Some token, failure_result (AuthFailed err)) \<and>
         STToAT_r (refresh_env env) (ST token) = Inl err \<and>
         ensureATValid env token = ([STToAT (ST token)], token, Some err)"
proof -
  from assms(3) have e: "ensureATValid env token = ([STToAT (ST token)], token, Some err)"
    and f: "STToAT_r (refresh_env env) (ST token) = Inl err"
    by (auto simp: ensureATValid_def split: if_splits sum.splits)
  with assms(1,2) show ?thesis
    by (simp add: HandleGeneration_def)
qed

theorem HandleGeneration_auth_failure_witness:
  "example_models (Model (example_request ''t2v-model'' [])) \<noteq> None \<and>
   snd (snd (ensureATValid example_handler_env_auth_fails example_expired_token))
     = Some ''401 Unauthorized'' \<and>
   HandleGeneration example_models (Some example_expired_token) example_handler_env_auth_fails
       True (example_request ''t2v-model'' [])
     = ([STToAT ''secret-1''], Some example_expired_token,
        failure_result (AuthFailed ''401 Unauthorized''))"
proof -
  have m: "example_models (Model (example_request ''t2v-model'' [])) = Some example_t2v_model"
    by (simp add: example_models_def example_request_def)
  have e: "snd (snd (ensureATValid example_handler_env_auth_fails example_expired_token))
     = Some ''401 Unauthorized''"
    by (simp add: ensureATValid_def example_handler_env_auth_fails_def example_handler_env_def
        example_env_fail_def example_expired_token_def newFlowToken_def)
  have t: "Some example_expired_token = Some example_expired_token" ..
  from HandleGeneration_auth_failure
         [where GetFlowModelConfig = example_models and streamCb = True, OF m t e] m e
  show ?thesis by (simp add: example_expired_token_def newFlowToken_def)
qed

subsection \<open>Bookkeeping in the generation branches\<close>

lemma bookkeeping_failure [simp]:
  "bookkeeping env token (failure_result f)
     = (if is_submit_failure f then token\<lparr>ErrorCount := ErrorCount token + 1\<rparr> else token)"
  by (simp add: bookkeeping_def submission_failed_def failure_result_def)





lemma example_poll_done:
  "pollVideoResult example_handler_env False example_used_token ''task-1'' ''scene-1''
     = ([Sleep 2000000000, CheckVideoStatus ''access-1'' ''task-1'' ''scene-1'',
         Sleep 2000000000, CheckVideoStatus ''access-1'' ''task-1'' ''scene-1''],
        Inr ''https://example.com/video.mp4'')"
  by (simp add: pollVideoResult_def loop_unroll pollVideoResult_body_def
      example_handler_env_def example_statuses_def example_pending_def example_done_def
      STATUS_SUCCESSFUL_def error_statuses_def example_used_token_def example_token_def
      wrap64_def Second_def)





subsection \<open>The image check of handleVideoGeneration\<close>

lemma pollVideoResult_body_no_upload:
  "c \<in> set (fst (pollVideoResult_body env streamCb at taskID sceneID maxAttempts pollInterval i))
   \<Longrightarrow> \<not> is_UploadImage c"
  by (cases "CheckVideoStatus_r env (nat i)")
     (auto simp: pollVideoResult_body_def Let_def split: if_splits)

lemma pollVideoResult_loop_no_upload:
  "c \<in> set (fst (pollVideoResult_loop env streamCb at taskID sceneID maxAttempts pollInterval i))
   \<Longrightarrow> \<not> is_UploadImage c"
proof (induction "nat (maxAttempts - i)" arbitrary: i)
  case 0
  then have "\<not> i < maxAttempts" by simp
  then have "fst (pollVideoResult_loop env streamCb at taskID sceneID maxAttempts
                         pollInterval i) = []"
    by (simp add: pollVideoResult_loop_exhausted)
  with "0.prems" show ?case by simp
next
  case (Suc n)
  from Suc.hyps(2) have lt: "i < maxAttempts" by simp
  let ?body = "fst (pollVideoResult_body env streamCb at taskID sceneID maxAttempts pollInterval i)"
  let ?rest = "fst (pollVideoResult_loop env streamCb at taskID sceneID maxAttempts
                          pollInterval (i + 1))"
  have "set (fst (pollVideoResult_loop env streamCb at taskID sceneID maxAttempts pollInterval i))
          \<subseteq> set ?body \<union> set ?rest"
    using pollVideoResult_loop_calls [of env streamCb at taskID sceneID maxAttempts pollInterval i]
      lt by (simp only: if_True)
  with Suc.prems consider (here) "c \<in> set ?body" | (later) "c \<in> set ?rest"
    by blast
  then show ?case
  proof cases
    case here
    then show ?thesis by (rule pollVideoResult_body_no_upload)
  next
    case later
    have n: "n = nat (maxAttempts - (i + 1))" using Suc.hyps(2) by simp
    from Suc.hyps(1) [OF n later] show ?thesis .
  qed
qed

lemma pollVideoResult_no_upload:
  "filter is_UploadImage (fst (pollVideoResult env streamCb token taskID sceneID)) = []"
  unfolding pollVideoResult_def filter_empty_conv
  using pollVideoResult_loop_no_upload by blast

lemma pollVideoResult_no_upload_pair:
  "pollVideoResult env streamCb token taskID sceneID = (polled, r) \<Longrightarrow>
   filter is_UploadImage polled = []"
  using pollVideoResult_no_upload [of env streamCb token taskID sceneID] by simp

lemma emit_no_upload [simp]: "filter is_UploadImage (emit streamCb content isFinish) = []"
  by (simp add: emit_def)

lemma video_submit_call_no_upload [simp]:
  "\<not> is_UploadImage (video_submit_call token modelConfig prompt s e r)"
  by (simp add: video_submit_call_def Let_def split: VideoType.splits)

text \<open>Two requests whose images pass the check with the same images left go on alike.\<close>

lemma handleVideoGeneration_after_check:
  assumes "video_check_images streamCb modelConfig (Images req) = (checked, Inr images)"
    and "video_check_images streamCb modelConfig (Images req') = (checked', Inr images)"
    and "Prompt req' = Prompt req"
  shows "snd (handleVideoGeneration env streamCb token modelConfig req)
           = snd (handleVideoGeneration env streamCb token modelConfig req') \<and>
         (\<exists>rest. fst (handleVideoGeneration env streamCb token modelConfig req)
                    = emit streamCb VideoStarted False @ checked @ rest \<and>
                  fst (handleVideoGeneration env streamCb token modelConfig req')
                    = emit streamCb VideoStarted False @ checked' @ rest)"
  using assms
  by (simp add: handleVideoGeneration_def Let_def split: prod.splits sum.splits)

lemma handleVideoGeneration_T2V_no_upload:
  assumes "cfg_VideoType modelConfig = VideoTypeT2V"
  shows "filter is_UploadImage (fst (handleVideoGeneration env streamCb token modelConfig req)) = []"
proof -
  have "\<exists>checked. video_check_images streamCb modelConfig (Images req) = (checked, Inr [])
      \<and> filter is_UploadImage checked = []"
    using assms by (auto simp: video_check_images_def Let_def)
  then obtain checked
    where c: "video_check_images streamCb modelConfig (Images req) = (checked, Inr [])"
      and cn: "filter is_UploadImage checked = []"
    by blast
  have u: "video_upload env streamCb token modelConfig [] = ([], Inr ([], [], []))"
    using assms by (simp add: video_upload_def)
  show ?thesis
    using c cn u
    by (auto simp: handleVideoGeneration_def Let_def split: prod.splits sum.splits
        dest: pollVideoResult_no_upload_pair)
qed

text \<open>
  C5, as stated, fails in its second part when the request has no stream callback: a
  text-to-video request with one image and a nil callback runs to success without any
  chunk, the warning included. The images are dropped all the same: the only calls are
  the text submission and the status queries.
\<close>

theorem handleVideoGeneration_image_count_counterexample:
  "cfg_VideoType example_t2v_model = VideoTypeT2V \<and>
   Images (example_request ''t2v-model'' [[1, 2, 3]]) = [[1, 2, 3]] \<and>
   handleVideoGeneration example_handler_env False example_used_token example_t2v_model
       (example_request ''t2v-model'' [[1, 2, 3]])
     = ([GenerateVideoText ''access-1'' ''project-1'' ''a lighthouse at dusk'' ''t2v_key''
           ''LANDSCAPE'' ''PAYGATE_TIER_ONE'',
         Sleep 2000000000, CheckVideoStatus ''access-1'' ''task-1'' ''scene-1'',
         Sleep 2000000000, CheckVideoStatus ''access-1'' ''task-1'' ''scene-1''],
        example_used_token\<lparr>LastUsed := 1000, ErrorCount := 0\<rparr>,
        \<lparr>Success = True, res_Type = ''video'', URL = ''https://example.com/video.mp4'',
         Error = None\<rparr>)"
  using example_poll_done
  by (simp add: handleVideoGeneration_def video_check_images_def video_upload_def
      video_submit_call_def example_t2v_model_def example_request_def emit_def
      example_handler_env_def example_used_token_def example_token_def newFlowToken_def)

text \<open>
  C5, amended. For a start/end-frame model and an image count below MinImages or above
  MaxImages, handleVideoGeneration returns the validation failure; all it did before is
  the start chunk, so no upload call was made, and the token is unchanged. For a
  text-to-video model and a request with images, the handler emits the warning chunk
  after the start chunk when there is a stream callback (\<open>emit\<close> does nothing without
  one), and then goes on exactly as for the same request without images: same calls,
  same token, same result, and no upload call.
\<close>

theorem handleVideoGeneration_image_count:
  "(cfg_VideoType modelConfig = VideoTypeI2V \<and>
    (int (length (Images req)) < MinImages modelConfig \<or>
     int (length (Images req)) > MaxImages modelConfig) \<longrightarrow>
      handleVideoGeneration env streamCb token modelConfig req
        = (emit streamCb VideoStarted False, token,
           failure_result (ImageCountInvalid (MinImages modelConfig) (MaxImages modelConfig)
                             (int (length (Images req))))) \<and>
      filter is_UploadImage (fst (handleVideoGeneration env streamCb token modelConfig req)) = []) \<and>
   (cfg_VideoType modelConfig = VideoTypeT2V \<and> Images req \<noteq> [] \<longrightarrow>
      snd (handleVideoGeneration env streamCb token modelConfig req)
        = snd (handleVideoGeneration env streamCb token modelConfig (req\<lparr>Images := []\<rparr>)) \<and>
      (\<exists>rest. fst (handleVideoGeneration env streamCb token modelConfig req)
                 = emit streamCb VideoStarted False @ emit streamCb T2VIgnoresImages False @ rest \<and>
               fst (handleVideoGeneration env streamCb token modelConfig (req\<lparr>Images := []\<rparr>))
                 = emit streamCb VideoStarted False @ rest) \<and>
      filter is_UploadImage (fst (handleVideoGeneration env streamCb token modelConfig req)) = [] \<and>
      (streamCb \<longrightarrow>
         Emit T2VIgnoresImages False
           \<in> set (fst (handleVideoGeneration env streamCb token modelConfig req))))"
proof -
  have i2v: "handleVideoGeneration env streamCb token modelConfig req
        = (emit streamCb VideoStarted False, token,
           failure_result (ImageCountInvalid (MinImages modelConfig) (MaxImages modelConfig)
                             (int (length (Images req))))) \<and>
      filter is_UploadImage (fst (handleVideoGeneration env streamCb token modelConfig req)) = []"
    if "cfg_VideoType modelConfig = VideoTypeI2V"
      "int (length (Images req)) < MinImages modelConfig \<or>
       int (length (Images req)) > MaxImages modelConfig"
    using that by (simp add: handleVideoGeneration_def video_check_images_def Let_def)
  have t2v: "snd (handleVideoGeneration env streamCb token modelConfig req)
        = snd (handleVideoGeneration env streamCb token modelConfig (req\<lparr>Images := []\<rparr>)) \<and>
      (\<exists>rest. fst (handleVideoGeneration env streamCb token modelConfig req)
                 = emit streamCb VideoStarted False @ emit streamCb T2VIgnoresImages False @ rest \<and>
               fst (handleVideoGeneration env streamCb token modelConfig (req\<lparr>Images := []\<rparr>))
                 = emit streamCb VideoStarted False @ rest) \<and>
      filter is_UploadImage (fst (handleVideoGeneration env streamCb token modelConfig req)) = [] \<and>
      (streamCb \<longrightarrow>
         Emit T2VIgnoresImages False
           \<in> set (fst (handleVideoGeneration env streamCb token modelConfig req)))"
    if h: "cfg_VideoType modelConfig = VideoTypeT2V" "Images req \<noteq> []"
  proof -
    have c: "video_check_images streamCb modelConfig (Images req)
               = (emit streamCb T2VIgnoresImages False, Inr [])"
      using h by (simp add: video_check_images_def Let_def)
    have c': "video_check_images streamCb modelConfig (Images (req\<lparr>Images := []\<rparr>)) = ([], Inr [])"
      using h by (simp add: video_check_images_def Let_def)
    have p: "Prompt (req\<lparr>Images := []\<rparr>) = Prompt req" by simp
    from handleVideoGeneration_after_check [OF c c' p, of env token]
    obtain rest where
      same: "snd (handleVideoGeneration env streamCb token modelConfig req)
        = snd (handleVideoGeneration env streamCb token modelConfig (req\<lparr>Images := []\<rparr>))"
      and tr: "fst (handleVideoGeneration env streamCb token modelConfig req)
                 = emit streamCb VideoStarted False @ emit streamCb T2VIgnoresImages False @ rest"
      and tr': "fst (handleVideoGeneration env streamCb token modelConfig (req\<lparr>Images := []\<rparr>))
                 = emit streamCb VideoStarted False @ [] @ rest"
      by blast
    have "Emit T2VIgnoresImages False
           \<in> set (fst (handleVideoGeneration env streamCb token modelConfig req))" if streamCb
      unfolding tr using that by (simp add: emit_def)
    then have "streamCb \<longrightarrow> Emit T2VIgnoresImages False
           \<in> set (fst (handleVideoGeneration env streamCb token modelConfig req))" ..
    with same tr tr' handleVideoGeneration_T2V_no_upload [OF h(1), of env streamCb token req]
    show ?thesis by auto
  qed
  from i2v t2v show ?thesis by blast
qed

theorem handleVideoGeneration_image_count_witness:
  "handleVideoGeneration example_handler_env True example_used_token example_i2v_model
       (example_request ''i2v-model'' [])
     = ([Emit VideoStarted False], example_used_token,
        failure_result (ImageCountInvalid 1 2 0)) \<and>
   handleVideoGeneration example_handler_env True example_used_token example_i2v_model
       (example_request ''i2v-model'' [[1], [2], [3]])
     = ([Emit VideoStarted False], example_used_token,
        failure_result (ImageCountInvalid 1 2 3)) \<and>
   Emit T2VIgnoresImages False
     \<in> set (fst (handleVideoGeneration example_handler_env True example_used_token
                    example_t2v_model (example_request ''t2v-model'' [[1, 2, 3]]))) \<and>
   filter is_UploadImage
     (fst (handleVideoGeneration example_handler_env True example_used_token
             example_t2v_model (example_request ''t2v-model'' [[1, 2, 3]]))) = [] \<and>
   snd (handleVideoGeneration example_handler_env True example_used_token
          example_t2v_model (example_request ''t2v-model'' [[1, 2, 3]]))
     = snd (handleVideoGeneration example_handler_env True example_used_token
          example_t2v_model (example_request ''t2v-model'' []))"
proof -
  note few = handleVideoGeneration_image_count [where modelConfig = example_i2v_model
      and req = "example_request ''i2v-model'' []" and env = example_handler_env
      and streamCb = True and token = example_used_token]
  note many = handleVideoGeneration_image_count [where modelConfig = example_i2v_model
      and req = "example_request ''i2v-model'' [[1], [2], [3]]" and env = example_handler_env
      and streamCb = True and token = example_used_token]
  note t2v = handleVideoGeneration_image_count [where modelConfig = example_t2v_model
      and req = "example_request ''t2v-model'' [[1, 2, 3]]" and env = example_handler_env
      and streamCb = True and token = example_used_token]
  have drop: "(example_request ''t2v-model'' [[1, 2, 3]])\<lparr>Images := []\<rparr>
      = example_request ''t2v-model'' []"
    by (simp add: example_request_def)
  from few have a: "handleVideoGeneration example_handler_env True example_used_token
       example_i2v_model (example_request ''i2v-model'' [])
     = ([Emit VideoStarted False], example_used_token, failure_result (ImageCountInvalid 1 2 0))"
    by (simp add: example_i2v_model_def example_request_def emit_def)
  from many have b: "handleVideoGeneration example_handler_env True example_used_token
       example_i2v_model (example_request ''i2v-model'' [[1], [2], [3]])
     = ([Emit VideoStarted False], example_used_token, failure_result (ImageCountInvalid 1 2 3))"
    by (simp add: example_i2v_model_def example_request_def emit_def)
  have h: "cfg_VideoType example_t2v_model = VideoTypeT2V \<and>
      Images (example_request ''t2v-model'' [[1, 2, 3]]) \<noteq> []"
    by (simp add: example_t2v_model_def example_request_def)
  from t2v h have c: "Emit T2VIgnoresImages False
     \<in> set (fst (handleVideoGeneration example_handler_env True example_used_token
                    example_t2v_model (example_request ''t2v-model'' [[1, 2, 3]])))"
    "filter is_UploadImage
     (fst (handleVideoGeneration example_handler_env True example_used_token
             example_t2v_model (example_request ''t2v-model'' [[1, 2, 3]]))) = []"
    "snd (handleVideoGeneration example_handler_env True example_used_token
          example_t2v_model (example_request ''t2v-model'' [[1, 2, 3]]))
     = snd (handleVideoGeneration example_handler_env True example_used_token
          example_t2v_model (example_request ''t2v-model'' []))"
    unfolding drop by blast+
  from a b c show ?thesis by blast
qed

subsection \<open>Well-formed pools stay well-formed\<close>

text \<open>
  The operations of the pool keep it well-formed, so every pool the code builds from a
  new one is well-formed. The IDs of a well-formed pool are results of generateTokenID
  and have 32 bytes: the slices \<^verbatim>\<open>[:16]\<close> that Stats and the log messages take of them are
  within bounds.
\<close>

lemma pool_wf_ID_length:
  assumes "pool_wf md5_Sum p"
  shows "\<forall>t \<in> set (map snd (tokens p)). 16 \<le> length (ID t)"
proof
  fix t assume "t \<in> set (map snd (tokens p))"
  then obtain k where "(k, t) \<in> set (tokens p)" by auto
  with assms have "ID t = generateTokenID md5_Sum (ST t)"
    by (auto simp: pool_wf_def list_all_iff)
  then show "16 \<le> length (ID t)" by (simp add: generateTokenID_length)
qed

lemma pool_wf_insert:
  assumes "pool_wf md5_Sum p" and "map_of (tokens p) k = None"
    and "ID t = k" and "k = generateTokenID md5_Sum (ST t)"
  shows "pool_wf md5_Sum (p\<lparr>tokens := AList.update k t (tokens p), client := cl\<rparr>)"
    and "pool_wf md5_Sum
           (p\<lparr>tokens := AList.update k t (tokens p), fileIndex := ix, client := cl\<rparr>)"
  using assms by (auto simp: pool_wf_def map_of_eq_None_iff update_absent)

lemma pool_wf_delete:
  assumes "pool_wf md5_Sum p"
  shows "pool_wf md5_Sum (p\<lparr>tokens := AList.delete k (tokens p)\<rparr>)"
    and "pool_wf md5_Sum (p\<lparr>tokens := AList.delete k (tokens p), fileIndex := ix\<rparr>)"
proof -
  have "list_all P (AList.delete k l)" if "list_all P l" for P and l :: "(string \<times> FlowToken) list"
    using that by (auto simp: AList.delete_eq list_all_iff)
  with assms show "pool_wf md5_Sum (p\<lparr>tokens := AList.delete k (tokens p)\<rparr>)"
    and "pool_wf md5_Sum (p\<lparr>tokens := AList.delete k (tokens p), fileIndex := ix\<rparr>)"
    by (simp_all add: pool_wf_def distinct_delete)
qed

lemma pool_wf_AddFromCookie:
  "pool_wf md5_Sum p \<Longrightarrow> pool_wf md5_Sum (fst (AddFromCookie md5_Sum cookie p))"
  by (auto simp: AddFromCookie_def Let_def newFlowToken_def intro!: pool_wf_insert)

lemma refreshSingleToken_identity:
  "ID (refreshSingleToken c env t) = ID t" "ST (refreshSingleToken c env t) = ST t"
  by (simp_all add: refreshSingleToken_def store_access_def split: sum.splits)

lemma refreshAllAT_body_identity:
  "ID (refreshAllAT_body c env t) = ID t" "ST (refreshAllAT_body c env t) = ST t"
  by (simp_all add: refreshAllAT_body_def store_access_def Let_def split: sum.splits)

lemma pool_wf_register:
  assumes "pool_wf md5_Sum p"
  shows "pool_wf md5_Sum
           (loadTokenFromFile_register md5_Sum env fileName (generateTokenID md5_Sum st) st p)"
  using assms
  by (auto simp: loadTokenFromFile_register_def Let_def newFlowToken_def
      refreshSingleToken_identity intro!: pool_wf_insert)

lemma pool_wf_loadTokenFromFile:
  "pool_wf md5_Sum p \<Longrightarrow> pool_wf md5_Sum (loadTokenFromFile md5_Sum env read_result filePath p)"
  by (auto simp: loadTokenFromFile_def Let_def split: sum.splits option.splits
      intro!: pool_wf_register pool_wf_delete)

lemma pool_wf_removeTokenByFile:
  "pool_wf md5_Sum p \<Longrightarrow> pool_wf md5_Sum (removeTokenByFile fileName p)"
  by (auto simp: removeTokenByFile_def split: option.splits intro!: pool_wf_delete)

lemma pool_wf_handleFileEvent:
  "pool_wf md5_Sum p \<Longrightarrow> pool_wf md5_Sum (handleFileEvent md5_Sum env ReadFile event p)"
  by (simp add: handleFileEvent_def Let_def pool_wf_loadTokenFromFile pool_wf_removeTokenByFile)

lemma refreshAllAT_loop_wf:
  "list_all (\<lambda>(k, t). ID t = k \<and> k = generateTokenID md5_Sum (ST t)) l \<Longrightarrow>
   list_all (\<lambda>(k, t). ID t = k \<and> k = generateTokenID md5_Sum (ST t)) (refreshAllAT_loop c env l)"
  by (induction l) (auto simp: refreshAllAT_body_identity)

lemma pool_wf_refreshAllAT:
  "pool_wf md5_Sum p \<Longrightarrow> pool_wf md5_Sum (refreshAllAT env p)"
  by (simp add: pool_wf_def refreshAllAT_def refreshAllAT_loop_keys refreshAllAT_loop_wf)

end
